theory Spec2Isabelle
  imports Main "HOL-Library.Word" "HOL-Library.Signed_Division" "HOL-Library.Sublist"
begin

section \<open>Go values\<close>

text \<open>
  The program is built for a 64-bit target, so Go's \<open>int\<close> and \<open>int64\<close> are both
  64-bit two's complement integers: \<open>+\<close> and \<open>-\<close> wrap, \<open>/\<close> truncates towards zero,
  comparisons are signed.
\<close>

type_synonym int64 = "64 word"

text \<open>Go's \<open>/\<close> on \<open>int64\<close> (the divisor is never zero where the program uses it).\<close>

definition quo_int64 :: "int64 \<Rightarrow> int64 \<Rightarrow> int64" where
  "quo_int64 a b = word_of_int (sint a sdiv sint b)"

text \<open>
  A slice is \<open>nil\<close> (\<open>None\<close>) or holds elements (\<open>Some xs\<close>, possibly empty):
  \<open>encoding/json\<close> writes the first as \<open>null\<close> and the second as an array.
  \<open>len\<close> of the nil slice is 0 and \<open>append\<close> to it allocates.
\<close>

type_synonym 'a slice = "'a list option"

definition elems :: "'a slice \<Rightarrow> 'a list" where
  "elems s = (case s of None \<Rightarrow> [] | Some xs \<Rightarrow> xs)"

definition len :: "'a slice \<Rightarrow> nat" where
  "len s = length (elems s)"

definition append_slice :: "'a slice \<Rightarrow> 'a \<Rightarrow> 'a slice" where
  "append_slice s x = Some (elems s @ [x])"

text \<open>\<open>make([]string, 0)\<close>: the empty slice that is not nil.\<close>

definition make_slice0 :: "'a slice" where
  "make_slice0 = Some []"

subsection \<open>Formatting\<close>

text \<open>The verb \<open>%d\<close> of \<open>fmt.Sprintf\<close>: decimal digits, with a minus sign when negative.\<close>

function digits :: "nat \<Rightarrow> string" where
  "digits n = (if n < 10 then [''0123456789'' ! n]
               else digits (n div 10) @ [''0123456789'' ! (n mod 10)])"
  by pat_completeness auto
termination
  by (relation "measure (\<lambda>n. n)") auto

declare digits.simps [simp del]

definition fmt_d :: "int \<Rightarrow> string" where
  "fmt_d i = (if i < 0 then CHR ''-'' # digits (nat (- i)) else digits (nat i))"

text \<open>\<open>strings.Join\<close>.\<close>

fun Join :: "string list \<Rightarrow> string \<Rightarrow> string" where
  "Join [] sep = []"
| "Join [x] sep = x"
| "Join (x # y # ys) sep = x @ sep @ Join (y # ys) sep"

section \<open>Data model\<close>

text \<open>
  \<open>time.Time\<close> as the program reads it: \<open>Unix()\<close> and \<open>String()\<close>.
\<close>

record Time =
  Unix :: int64
  String :: string

text \<open>
  The fields of \<open>x509.Certificate\<close> that the program reads. \<open>Subject_Names\<close> holds the
  attribute values of \<open>Subject.Names\<close> as \<open>%v\<close> renders them.
\<close>

record x509_Certificate =
  x509_NotBefore :: Time
  x509_NotAfter :: Time
  x509_Issuer_CommonName :: string
  x509_DNSNames :: "string list"
  x509_Subject_Names :: "string list"

record 'c StatusResponse =
  LastUpdated :: string
  Errors :: "string slice"
  Warnings :: "string slice"
  Certificates :: "'c slice"

section \<open>Days left\<close>

text \<open>
  \<open>daysLeft := (x509Data.NotAfter.Unix() - time.Now().Unix()) / 86400\<close>, the same
  expression in \<open>getIngresses\<close> and in \<open>getCertificateList\<close>.
\<close>

definition daysLeft :: "x509_Certificate \<Rightarrow> int64 \<Rightarrow> int64" where
  "daysLeft x509Data now = quo_int64 (Unix (x509_NotAfter x509Data) - now) 86400"

section \<open>The cluster and the libraries\<close>

text \<open>
  The Kubernetes objects the program reads, with the fields it reads.
\<close>

record IngressTLS =
  tls_Hosts :: "string list"
  tls_SecretName :: string

record Ingress =
  ingress_Name :: string
  ingress_Spec_TLS :: "IngressTLS list"

record Secret =
  secret_Name :: string
  secret_Namespace :: string
  secret_Type :: string
  secret_Labels :: "string \<rightharpoonup> string"
  secret_Data :: "string \<rightharpoonup> 8 word list"

text \<open>
  The answers of the cluster to the calls the program makes through
  \<open>kubernetes.Clientset\<close>. A call that the program leaves at once when \<open>err\<close> is set
  answers with a sum (\<open>Inl\<close> the text of \<open>err.Error()\<close>); the per-namespace listings,
  whose value the program uses whatever the error, answer with the pair that Go returns
  (\<open>Namespaces_List\<close> gives the names of the items).
\<close>

record KubeClient =
  Namespaces_List :: "string + string list"
  Ingresses_List :: "string \<Rightarrow> Ingress list \<times> string option"
  Secrets_Get :: "string \<Rightarrow> string \<Rightarrow> string + Secret"
  Secrets_List :: "string \<Rightarrow> Secret list \<times> string option"

text \<open>
  The functions of \<open>encoding/pem\<close> and \<open>crypto/x509\<close> that the program calls:
  \<open>pem.Decode\<close> gives the bytes of the first block or no block,
  \<open>x509.ParseCertificate\<close> a certificate or an error (whose text the program drops),
  and \<open>VerifyHostname\<close> is true where the method returns \<open>nil\<close>.
\<close>

record Crypto =
  pem_Decode :: "8 word list \<Rightarrow> 8 word list option"
  x509_ParseCertificate :: "8 word list \<Rightarrow> x509_Certificate option"
  VerifyHostname :: "x509_Certificate \<Rightarrow> string \<Rightarrow> bool"

record ApplicationConfig =
  KubeConfig :: string
  UpdateInterval :: int64
  ListenPort :: int64
  CritDaysLeft :: int64
  WarnDaysLeft :: int64
  KubeClient :: KubeClient

section \<open>The ingress-scanning variant (main.go)\<close>

text \<open>
  The slices that the program builds with \<open>append\<close> are slices here; those that it
  only copies, ranges over or joins (\<open>DNSNames\<close>, \<open>Hosts\<close>) are lists.
\<close>

record CertificateInfo =
  Issuer :: string
  CommonNames :: "string slice"
  NotBefore :: string
  NotAfter :: string
  DNSNames :: "string list"
  DaysLeft :: int64
  IsValid :: bool

record IngressInfo =
  Name :: string
  Namespace :: string
  Hosts :: "string list"
  TLSSecretName :: string
  x509 :: "x509_Certificate option"
  CertificateInfo :: "CertificateInfo option"

text \<open>\<open>getx509Data\<close>: the secret of the ingress, parsed, or the error.\<close>

definition getx509Data ::
  "Crypto \<Rightarrow> KubeClient \<Rightarrow> IngressInfo \<Rightarrow> string + x509_Certificate" where
  "getx509Data lib client ingress =
     (case Secrets_Get client (Namespace ingress) (TLSSecretName ingress) of
        Inl err \<Rightarrow> Inl err
      | Inr secret \<Rightarrow>
          (case secret_Data secret ''tls.crt'' of
             None \<Rightarrow>
               Inl (''tls.crt does not exist in '' @ Namespace ingress @ ''/''
                    @ TLSSecretName ingress)
           | Some tlsCrt \<Rightarrow>
               if length tlsCrt = 0 then
                 Inl (''tls.crt for '' @ Namespace ingress @ ''/''
                      @ TLSSecretName ingress @ '' is empty'')
               else
                 (case pem_Decode lib tlsCrt of
                    None \<Rightarrow>
                      Inl (''Failed to decode certificate '' @ Namespace ingress @ ''/''
                           @ TLSSecretName ingress)
                  | Some block \<Rightarrow>
                      (case x509_ParseCertificate lib block of
                         None \<Rightarrow>
                           Inl (''Failed to parse certificate '' @ Namespace ingress
                                @ ''/'' @ TLSSecretName ingress)
                       | Some parsedCert \<Rightarrow> Inr parsedCert))))"

text \<open>The three messages of \<open>getIngresses\<close>.\<close>

definition msg_expired :: "string \<Rightarrow> string \<Rightarrow> CertificateInfo \<Rightarrow> string" where
  "msg_expired ns_Name ingress_name certInfo =
     ''certificate '' @ ns_Name @ ''/'' @ ingress_name @ '' (''
     @ Join (DNSNames certInfo) '', '' @ '') expired on '' @ NotAfter certInfo"

definition msg_will_expire :: "string \<Rightarrow> string \<Rightarrow> CertificateInfo \<Rightarrow> string" where
  "msg_will_expire ns_Name ingress_name certInfo =
     ''certificate '' @ ns_Name @ ''/'' @ ingress_name @ '' (''
     @ Join (DNSNames certInfo) '', '' @ '') will expire in ''
     @ fmt_d (sint (DaysLeft certInfo)) @ '' days ('' @ NotAfter certInfo @ '').''"

definition msg_host :: "string \<Rightarrow> string \<Rightarrow> string \<Rightarrow> string" where
  "msg_host ns_Name ingress_name h =
     ''certificate for '' @ ns_Name @ ''/'' @ ingress_name
     @ '' is not valid for host '' @ h"

text \<open>
  The \<open>if daysLeft <= 0 ... else if ... else if ...\<close> of \<open>getIngresses\<close>
  (lines 162 to 169), on the variables it assigns: \<open>warnings\<close>, \<open>errors\<close> and
  \<open>certInfo\<close>.
\<close>

definition expiryLadder ::
  "ApplicationConfig \<Rightarrow> string \<Rightarrow> string \<Rightarrow> int64
   \<Rightarrow> string slice \<times> string slice \<times> CertificateInfo
   \<Rightarrow> string slice \<times> string slice \<times> CertificateInfo" where
  "expiryLadder appConfig ns_Name ingress_name dl = (\<lambda>(warnings, errors, certInfo).
     if sint dl \<le> 0 then
       (warnings, append_slice errors (msg_expired ns_Name ingress_name certInfo),
        certInfo\<lparr>IsValid := False\<rparr>)
     else if sint dl \<le> sint (CritDaysLeft appConfig) then
       (warnings, append_slice errors (msg_will_expire ns_Name ingress_name certInfo),
        certInfo)
     else if sint dl < sint (WarnDaysLeft appConfig) then
       (append_slice warnings (msg_will_expire ns_Name ingress_name certInfo), errors,
        certInfo)
     else (warnings, errors, certInfo))"

text \<open>The loop \<open>for _, h := range tlsSpec.Hosts\<close> (lines 171 to 176).\<close>

fun hostsLoop ::
  "Crypto \<Rightarrow> x509_Certificate \<Rightarrow> string \<Rightarrow> string \<Rightarrow> string list
   \<Rightarrow> string slice \<times> CertificateInfo \<Rightarrow> string slice \<times> CertificateInfo" where
  "hostsLoop lib x509Data ns_Name ingress_name [] (errors, certInfo) = (errors, certInfo)"
| "hostsLoop lib x509Data ns_Name ingress_name (h # hs) (errors, certInfo) =
     hostsLoop lib x509Data ns_Name ingress_name hs
       (if \<not> VerifyHostname lib x509Data h then
          (append_slice errors (msg_host ns_Name ingress_name h),
           certInfo\<lparr>IsValid := False\<rparr>)
        else (errors, certInfo))"

text \<open>
  The composite literal \<open>&IngressInfo{...}\<close> (lines 132 to 138); the pointer
  \<open>CertificateInfo\<close> starts nil.
\<close>

definition newIngressInfo :: "string \<Rightarrow> Ingress \<Rightarrow> IngressTLS \<Rightarrow> IngressInfo" where
  "newIngressInfo ns_Name ingress tlsSpec =
     \<lparr>Name = ingress_Name ingress, Namespace = ns_Name, Hosts = tls_Hosts tlsSpec,
      TLSSecretName = tls_SecretName tlsSpec, x509 = None, CertificateInfo = None\<rparr>"

text \<open>
  The composite literal \<open>&CertificateInfo{...}\<close> (lines 149 to 156, where
  \<open>int(daysLeft)\<close> keeps the value) followed by the loop over \<open>Subject.Names\<close>
  (lines 158 to 160).
\<close>

definition newCertInfo :: "x509_Certificate \<Rightarrow> int64 \<Rightarrow> CertificateInfo" where
  "newCertInfo x509Data dl =
     (let certInfo = \<lparr>Issuer = x509_Issuer_CommonName x509Data,
                        CommonNames = None,
                        NotBefore = String (x509_NotBefore x509Data),
                        NotAfter = String (x509_NotAfter x509Data),
                        DNSNames = x509_DNSNames x509Data,
                        DaysLeft = dl,
                        IsValid = True\<rparr>
      in certInfo\<lparr>CommonNames :=
           foldl append_slice (CommonNames certInfo) (x509_Subject_Names x509Data)\<rparr>)"

text \<open>
  The body of \<open>for _, tlsSpec := range tls\<close>, on the three results of the function
  (\<open>ingressInfoList\<close>, \<open>warnings\<close>, \<open>errors\<close>). \<open>now\<close> is what \<open>time.Now().Unix()\<close>
  reads.
\<close>

definition tlsSpecStep ::
  "Crypto \<Rightarrow> ApplicationConfig \<Rightarrow> int64 \<Rightarrow> string \<Rightarrow> Ingress \<Rightarrow> IngressTLS
   \<Rightarrow> IngressInfo slice \<times> string slice \<times> string slice
   \<Rightarrow> IngressInfo slice \<times> string slice \<times> string slice" where
  "tlsSpecStep lib appConfig now ns_Name ingress tlsSpec =
     (\<lambda>(ingressInfoList, warnings, errors).
     let ingressInfo = newIngressInfo ns_Name ingress tlsSpec
     in case getx509Data lib (KubeClient appConfig) ingressInfo of
          Inl err \<Rightarrow> (ingressInfoList, warnings, append_slice errors err)
        | Inr x509Data \<Rightarrow>
            let dl = daysLeft x509Data now;
                certInfo = newCertInfo x509Data dl;
                (warnings, errors, certInfo) =
                   expiryLadder appConfig ns_Name (ingress_Name ingress) dl
                     (warnings, errors, certInfo);
                (errors, certInfo) =
                   hostsLoop lib x509Data ns_Name (ingress_Name ingress)
                     (tls_Hosts tlsSpec) (errors, certInfo)
            in (append_slice ingressInfoList
                  (ingressInfo\<lparr>x509 := Some x509Data,
                                CertificateInfo := Some certInfo\<rparr>),
                warnings, errors))"

text \<open>The body of \<open>for _, ingress := range ingresses.Items\<close>.\<close>

definition ingressStep ::
  "Crypto \<Rightarrow> ApplicationConfig \<Rightarrow> int64 \<Rightarrow> string \<Rightarrow> Ingress
   \<Rightarrow> IngressInfo slice \<times> string slice \<times> string slice
   \<Rightarrow> IngressInfo slice \<times> string slice \<times> string slice" where
  "ingressStep lib appConfig now ns_Name ingress =
     fold (tlsSpecStep lib appConfig now ns_Name ingress) (ingress_Spec_TLS ingress)"

text \<open>
  The body of \<open>for _, ns := range namespaces.Items\<close>. The error of the listing is
  assigned to \<open>_\<close>; the \<open>err\<close> that the body tests is the variable of the function,
  set by the listing of the namespaces (the \<open>err\<close> of \<open>getx509Data\<close> is declared in
  an inner block). The typed client returns a list that is not nil also when it returns
  an error, so the loop over its items runs in both cases.
\<close>

definition namespaceStep ::
  "Crypto \<Rightarrow> ApplicationConfig \<Rightarrow> int64 \<Rightarrow> string option \<Rightarrow> string
   \<Rightarrow> IngressInfo slice \<times> string slice \<times> string slice
   \<Rightarrow> IngressInfo slice \<times> string slice \<times> string slice" where
  "namespaceStep lib appConfig now err ns_Name acc =
     (case Ingresses_List (KubeClient appConfig) ns_Name of
        (ingresses, _) \<Rightarrow>
          if err \<noteq> None then acc
          else fold (ingressStep lib appConfig now ns_Name) ingresses acc)"

text \<open>
  \<open>getIngresses\<close> returns \<open>(ingressInfoList, warnings, errors)\<close>. The three
  results are named, so they start nil. The clock is read once for each certificate;
  the readings of one cycle are taken to be the one value \<open>now\<close>.
\<close>

definition getIngresses ::
  "Crypto \<Rightarrow> ApplicationConfig \<Rightarrow> int64
   \<Rightarrow> IngressInfo slice \<times> string slice \<times> string slice" where
  "getIngresses lib appConfig now =
     (case Namespaces_List (KubeClient appConfig) of
        Inl err \<Rightarrow> (None, None, append_slice None err)
      | Inr namespaces \<Rightarrow>
          fold (namespaceStep lib appConfig now None) namespaces (None, None, None))"

text \<open>
  One turn of the loop of \<open>main\<close> up to the assignment of \<open>currentStatus\<close>:
  \<open>nowString\<close> is what \<open>time.Now().String()\<close> reads, and the value of
  \<open>currentStatus\<close> before the turn is an argument.
\<close>

definition refresh ::
  "Crypto \<Rightarrow> ApplicationConfig \<Rightarrow> int64 \<Rightarrow> string
   \<Rightarrow> IngressInfo StatusResponse \<Rightarrow> IngressInfo StatusResponse" where
  "refresh lib appConfig now nowString currentStatus =
     (case getIngresses lib appConfig now of
        (ingressList, warnings, errors) \<Rightarrow>
          \<lparr>LastUpdated = nowString, Errors = errors, Warnings = warnings,
           Certificates = ingressList\<rparr>)"

section \<open>The secret-scanning variant\<close>

text \<open>
  The second program of the repository scans the TLS secrets themselves. Its names are
  those of the first; where both are modelled, the names of this variant carry a prime.
\<close>

record CertificateInfo' =
  SecretName' :: string
  Namespace' :: string
  Issuer' :: string
  CommonNames' :: "string slice"
  NotBefore' :: string
  NotAfter' :: string
  DNSNames' :: "string list"
  DaysLeft' :: int64
  IsValid' :: bool

definition getx509Data' :: "Crypto \<Rightarrow> Secret \<Rightarrow> string + x509_Certificate" where
  "getx509Data' lib secret =
     (case secret_Data secret ''tls.crt'' of
        None \<Rightarrow>
          Inl (''tls.crt does not exist in '' @ secret_Namespace secret @ ''/''
               @ secret_Name secret)
      | Some tlsCrt \<Rightarrow>
          if length tlsCrt = 0 then
            Inl (''tls.crt for '' @ secret_Namespace secret @ ''/''
                 @ secret_Name secret @ '' is empty'')
          else
            (case pem_Decode lib tlsCrt of
               None \<Rightarrow>
                 Inl (''Failed to decode certificate '' @ secret_Namespace secret @ ''/''
                      @ secret_Name secret)
             | Some block \<Rightarrow>
                 (case x509_ParseCertificate lib block of
                    None \<Rightarrow>
                      Inl (''Failed to parse certificate '' @ secret_Namespace secret
                           @ ''/'' @ secret_Name secret)
                  | Some parsedCert \<Rightarrow> Inr parsedCert)))"

definition msg_expired' :: "string \<Rightarrow> CertificateInfo' \<Rightarrow> string" where
  "msg_expired' ns_Name certificateInfo =
     ''certificate '' @ ns_Name @ ''/'' @ SecretName' certificateInfo @ '' (''
     @ Join (DNSNames' certificateInfo) '', '' @ '') expired on ''
     @ NotAfter' certificateInfo"

definition msg_will_expire' :: "string \<Rightarrow> CertificateInfo' \<Rightarrow> string" where
  "msg_will_expire' ns_Name certificateInfo =
     ''certificate '' @ ns_Name @ ''/'' @ SecretName' certificateInfo @ '' (''
     @ Join (DNSNames' certificateInfo) '', '' @ '') will expire in ''
     @ fmt_d (sint (DaysLeft' certificateInfo)) @ '' days (''
     @ NotAfter' certificateInfo @ '').''"

text \<open>The \<open>if daysLeft <= 0 ...\<close> of \<open>getCertificateList\<close> (lines 153 to 160).\<close>

definition expiryLadder' ::
  "ApplicationConfig \<Rightarrow> string \<Rightarrow> int64
   \<Rightarrow> string slice \<times> string slice \<times> CertificateInfo'
   \<Rightarrow> string slice \<times> string slice \<times> CertificateInfo'" where
  "expiryLadder' appConfig ns_Name dl = (\<lambda>(warnings, errors, certificateInfo).
     if sint dl \<le> 0 then
       (warnings, append_slice errors (msg_expired' ns_Name certificateInfo),
        certificateInfo\<lparr>IsValid' := False\<rparr>)
     else if sint dl \<le> sint (CritDaysLeft appConfig) then
       (warnings, append_slice errors (msg_will_expire' ns_Name certificateInfo),
        certificateInfo)
     else if sint dl < sint (WarnDaysLeft appConfig) then
       (append_slice warnings (msg_will_expire' ns_Name certificateInfo), errors,
        certificateInfo)
     else (warnings, errors, certificateInfo))"

text \<open>
  The value of \<open>certificateInfo\<close> when the ladder is reached: the composite literal
  of lines 129 to 132 after the assignments of lines 142 to 147 and the loop over
  \<open>Subject.Names\<close> (lines 149 to 151). \<open>secretStep\<close> below builds it in the steps
  of the source.
\<close>

definition newCertInfo' :: "string \<Rightarrow> Secret \<Rightarrow> x509_Certificate \<Rightarrow> int64 \<Rightarrow> CertificateInfo'" where
  "newCertInfo' ns_Name secret x509Data dl =
     \<lparr>SecretName' = secret_Name secret, Namespace' = ns_Name,
      Issuer' = x509_Issuer_CommonName x509Data,
      CommonNames' = foldl append_slice None (x509_Subject_Names x509Data),
      NotBefore' = String (x509_NotBefore x509Data),
      NotAfter' = String (x509_NotAfter x509Data),
      DNSNames' = x509_DNSNames x509Data,
      DaysLeft' = dl,
      IsValid' = True\<rparr>"

text \<open>
  The body of \<open>for _, secret := range secrets.Items\<close>. The fields that the composite
  literal leaves out start at their zero values.
\<close>

definition secretStep ::
  "Crypto \<Rightarrow> ApplicationConfig \<Rightarrow> int64 \<Rightarrow> string \<Rightarrow> Secret
   \<Rightarrow> CertificateInfo' slice \<times> string slice \<times> string slice
   \<Rightarrow> CertificateInfo' slice \<times> string slice \<times> string slice" where
  "secretStep lib appConfig now ns_Name secret =
     (\<lambda>(certificateInfoList, warnings, errors).
     if secret_Type secret \<noteq> ''kubernetes.io/tls'' then
       (certificateInfoList, warnings, errors)
     else if (case secret_Labels secret ''kubed.appscode.com/origin.namespace'' of
                Some originNS \<Rightarrow> originNS \<noteq> ns_Name
              | None \<Rightarrow> False) then
       (certificateInfoList, warnings, errors)
     else
       let certificateInfo = \<lparr>SecretName' = secret_Name secret, Namespace' = ns_Name,
                                Issuer' = [], CommonNames' = None, NotBefore' = [],
                                NotAfter' = [], DNSNames' = [], DaysLeft' = 0,
                                IsValid' = False\<rparr>
       in case getx509Data' lib secret of
            Inl err \<Rightarrow> (certificateInfoList, warnings, append_slice errors err)
          | Inr x509Data \<Rightarrow>
              let dl = daysLeft x509Data now;
                  certificateInfo = certificateInfo
                    \<lparr>NotBefore' := String (x509_NotBefore x509Data),
                     NotAfter' := String (x509_NotAfter x509Data),
                     Issuer' := x509_Issuer_CommonName x509Data,
                     DNSNames' := x509_DNSNames x509Data,
                     DaysLeft' := dl,
                     IsValid' := True\<rparr>;
                  certificateInfo = certificateInfo\<lparr>CommonNames' :=
                     foldl append_slice (CommonNames' certificateInfo)
                       (x509_Subject_Names x509Data)\<rparr>;
                  (warnings, errors, certificateInfo) =
                     expiryLadder' appConfig ns_Name dl (warnings, errors, certificateInfo)
              in (append_slice certificateInfoList certificateInfo, warnings, errors))"

text \<open>
  The body of \<open>for _, ns := range namespaces.Items\<close>; as in \<open>getIngresses\<close> the
  error of the listing goes to \<open>_\<close> and the \<open>err\<close> tested is the one of the function.
\<close>

definition namespaceStep' ::
  "Crypto \<Rightarrow> ApplicationConfig \<Rightarrow> int64 \<Rightarrow> string option \<Rightarrow> string
   \<Rightarrow> CertificateInfo' slice \<times> string slice \<times> string slice
   \<Rightarrow> CertificateInfo' slice \<times> string slice \<times> string slice" where
  "namespaceStep' lib appConfig now err ns_Name acc =
     (case Secrets_List (KubeClient appConfig) ns_Name of
        (secrets, _) \<Rightarrow>
          if err \<noteq> None then acc
          else fold (secretStep lib appConfig now ns_Name) secrets acc)"

text \<open>\<open>getCertificateList\<close> returns \<open>(certificateInfoList, warnings, errors)\<close>.\<close>

definition getCertificateList ::
  "Crypto \<Rightarrow> ApplicationConfig \<Rightarrow> int64
   \<Rightarrow> CertificateInfo' slice \<times> string slice \<times> string slice" where
  "getCertificateList lib appConfig now =
     (case Namespaces_List (KubeClient appConfig) of
        Inl err \<Rightarrow> (None, None, append_slice None err)
      | Inr namespaces \<Rightarrow>
          (case fold (namespaceStep' lib appConfig now None) namespaces
                  (None, None, None) of
             (certificateInfoList, warnings, errors) \<Rightarrow>
               let warnings = (if warnings = None then make_slice0 else warnings);
                   errors = (if errors = None then make_slice0 else errors)
               in (certificateInfoList, warnings, errors)))"

definition refresh' ::
  "Crypto \<Rightarrow> ApplicationConfig \<Rightarrow> int64 \<Rightarrow> string
   \<Rightarrow> CertificateInfo' StatusResponse \<Rightarrow> CertificateInfo' StatusResponse" where
  "refresh' lib appConfig now nowString currentStatus =
     (case getCertificateList lib appConfig now of
        (certList, warnings, errors) \<Rightarrow>
          \<lparr>LastUpdated = nowString, Errors = errors, Warnings = warnings,
           Certificates = certList\<rparr>)"

section \<open>The status handler\<close>

text \<open>
  The argument of \<open>w.WriteHeader\<close> in the handler of \<open>main\<close>; the handler is the same
  text in both variants of the program.
\<close>

definition handler_status :: "'c StatusResponse \<Rightarrow> nat" where
  "handler_status currentStatus =
     (if len (Errors currentStatus) > 0 then 202
      else if len (Warnings currentStatus) > 0 then 201
      else 200)"

text \<open>
  The handler reads the variable \<open>currentStatus\<close> three times, at lines 244, 246 and
  252 of main.go, and the goroutine of the refresh loop assigns it with no
  synchronisation between the two. \<open>handler_response\<close> takes the value found at each
  read and gives the status code with the value that is serialised as the body; the
  second read happens only when the first found no errors.
\<close>

definition handler_response ::
  "'c StatusResponse \<Rightarrow> 'c StatusResponse \<Rightarrow> 'c StatusResponse \<Rightarrow> nat \<times> 'c StatusResponse" where
  "handler_response read244 read246 read252 =
     ((if len (Errors read244) > 0 then 202
       else if len (Warnings read246) > 0 then 201
       else 200),
      read252)"

section \<open>Notions of the specification\<close>

text \<open>
  The severity of a certificate, in the words of the specification (section 4.2, step
  3). The program holds no such value: the tier shows in the list that receives the
  diagnostic of the expiry.
\<close>

datatype Severity = OK | WARN | CRIT

definition spec_severity :: "int \<Rightarrow> int \<Rightarrow> int \<Rightarrow> Severity" where
  "spec_severity criticalDaysLeft warnDaysLeft d =
     (if d \<le> 0 then CRIT
      else if d \<le> criticalDaysLeft then CRIT
      else if d < warnDaysLeft then WARN
      else OK)"

text \<open>
  The configuration whose cluster lists the same namespaces but for \<open>ns_Name\<close>.
\<close>

definition without_namespace :: "string \<Rightarrow> ApplicationConfig \<Rightarrow> ApplicationConfig" where
  "without_namespace ns_Name appConfig =
     appConfig\<lparr>KubeClient := (KubeClient appConfig)
       \<lparr>Namespaces_List :=
          map_sum id (filter (\<lambda>n. n \<noteq> ns_Name)) (Namespaces_List (KubeClient appConfig))\<rparr>\<rparr>"

section \<open>Concrete inputs\<close>

text \<open>
  A cluster with one namespace \<open>prod\<close>, one ingress \<open>web\<close> with one TLS entry for
  \<open>a.example.com\<close> and \<open>b.example.com\<close>, and its secret \<open>web-tls\<close>, whose
  certificate expires at second \<open>t\<close> and covers \<open>a.example.com\<close> only.
\<close>

definition cert_ex :: "int64 \<Rightarrow> x509_Certificate" where
  "cert_ex t =
     \<lparr>x509_NotBefore = \<lparr>Unix = 0, String = ''1970-01-01 00:00:00 +0000 UTC''\<rparr>,
      x509_NotAfter = \<lparr>Unix = t, String = ''NOTAFTER''\<rparr>,
      x509_Issuer_CommonName = ''ca'',
      x509_DNSNames = [''a.example.com''],
      x509_Subject_Names = [''a.example.com'']\<rparr>"

definition lib_ex :: "int64 \<Rightarrow> Crypto" where
  "lib_ex t =
     \<lparr>pem_Decode = (\<lambda>bytes. Some bytes),
      x509_ParseCertificate = (\<lambda>bytes. Some (cert_ex t)),
      VerifyHostname = (\<lambda>c h. h \<in> set (x509_DNSNames c))\<rparr>"

definition secret_ex :: Secret where
  "secret_ex =
     \<lparr>secret_Name = ''web-tls'', secret_Namespace = ''prod'',
      secret_Type = ''kubernetes.io/tls'', secret_Labels = Map.empty,
      secret_Data = [''tls.crt'' \<mapsto> [45, 45, 45]]\<rparr>"

definition tls_ex :: "string list \<Rightarrow> IngressTLS" where
  "tls_ex hosts = \<lparr>tls_Hosts = hosts, tls_SecretName = ''web-tls''\<rparr>"

definition ingress_ex :: "string list \<Rightarrow> Ingress" where
  "ingress_ex hosts = \<lparr>ingress_Name = ''web'', ingress_Spec_TLS = [tls_ex hosts]\<rparr>"

definition hosts_ab :: "string list" where
  "hosts_ab = [''a.example.com'', ''b.example.com'']"

definition client_ex :: "string list \<Rightarrow> KubeClient" where
  "client_ex hosts =
     \<lparr>Namespaces_List = Inr [''prod''],
      Ingresses_List = (\<lambda>ns. ([ingress_ex hosts], None)),
      Secrets_Get = (\<lambda>ns n. Inr secret_ex),
      Secrets_List = (\<lambda>ns. ([secret_ex], None))\<rparr>"

definition config_ex :: "KubeClient \<Rightarrow> ApplicationConfig" where
  "config_ex client =
     \<lparr>KubeConfig = [], UpdateInterval = 60, ListenPort = 8080, CritDaysLeft = 3,
      WarnDaysLeft = 30, KubeClient = client\<rparr>"

text \<open>The same cluster when the listing of the namespaces is refused.\<close>

definition client_unauthorized :: KubeClient where
  "client_unauthorized = (client_ex [])\<lparr>Namespaces_List := Inl ''Unauthorized''\<rparr>"

text \<open>The cluster when reading the secret fails.\<close>

definition client_get_fails :: KubeClient where
  "client_get_fails =
     (client_ex [''a.example.com''])
       \<lparr>Secrets_Get := (\<lambda>ns n. Inl ''etcdserver: request timed out'')\<rparr>"

text \<open>The cluster when the listings inside a namespace fail.\<close>

definition client_listing_fails :: KubeClient where
  "client_listing_fails =
     (client_ex [])
       \<lparr>Ingresses_List := (\<lambda>ns. ([], Some ''etcdserver: request timed out'')),
        Secrets_List := (\<lambda>ns. ([], Some ''etcdserver: request timed out''))\<rparr>"

text \<open>The zero value of \<open>StatusResponse\<close>, which \<open>currentStatus\<close> holds at the start.\<close>

definition status_zero :: "'c StatusResponse" where
  "status_zero = \<lparr>LastUpdated = [], Errors = None, Warnings = None, Certificates = None\<rparr>"

text \<open>Three hosts, the first and the last of which the certificate does not cover.\<close>

definition hosts_bac :: "string list" where
  "hosts_bac = [''b.example.com'', ''a.example.com'', ''c.example.com'']"

text \<open>
  A cluster with a second namespace \<open>dev\<close> whose listings fail, as the client reports
  it: no items and an error.
\<close>

definition client_one_listing_fails :: KubeClient where
  "client_one_listing_fails =
     (client_ex hosts_ab)
       \<lparr>Namespaces_List := Inr [''prod'', ''dev''],
        Ingresses_List := (\<lambda>ns. if ns = ''dev'' then ([], Some ''etcdserver: request timed out'')
                                else ([ingress_ex hosts_ab], None)),
        Secrets_List := (\<lambda>ns. if ns = ''dev'' then ([], Some ''etcdserver: request timed out'')
                              else ([secret_ex], None))\<rparr>"

text \<open>
  Two snapshots of successive cycles: the first has one warning (20 days left) and no
  error, the second one error (a host not covered) and no warning.
\<close>

definition snapshot_warn :: "IngressInfo StatusResponse" where
  "snapshot_warn =
     refresh (lib_ex 1728000) (config_ex (client_ex [''a.example.com''])) 0 ''T1'' status_zero"

definition snapshot_err :: "IngressInfo StatusResponse" where
  "snapshot_err =
     refresh (lib_ex 8640000) (config_ex (client_ex hosts_ab)) 0 ''T2'' snapshot_warn"

section \<open>Slices and formatting\<close>

lemma elems_append_slice: "elems (append_slice s x) = elems s @ [x]"
  by (simp add: append_slice_def elems_def)

lemma len_append_slice: "len (append_slice s x) = Suc (len s)"
  by (simp add: len_def elems_append_slice)

lemma append_slice_neq: "append_slice s x \<noteq> s"
proof
  assume "append_slice s x = s"
  then have "len (append_slice s x) = len s" by simp
  then show False by (simp add: len_append_slice)
qed

lemma elems_foldl_append_slice: "elems (foldl append_slice s xs) = elems s @ xs"
  by (induction xs arbitrary: s) (simp_all add: elems_append_slice)

section \<open>The status code\<close>

text \<open>
  C6. The status code that the handler writes for the snapshot it reads is 202 when
  the errors are not empty, whatever the warnings; else 201 when the warnings are not
  empty; else 200. So it is 200 exactly when both lists are empty (nil or of length 0).
\<close>

theorem handler_status_tiers:
  "(elems (Errors s) \<noteq> [] \<longrightarrow> handler_status s = 202)
   \<and> (elems (Errors s) = [] \<and> elems (Warnings s) \<noteq> [] \<longrightarrow> handler_status s = 201)
   \<and> (elems (Errors s) = [] \<and> elems (Warnings s) = [] \<longrightarrow> handler_status s = 200)
   \<and> (handler_status s = 200 \<longleftrightarrow> elems (Errors s) = [] \<and> elems (Warnings s) = [])"
  by (simp add: handler_status_def len_def)

theorem handler_status_tiers_witness:
  "handler_status (status_zero\<lparr>Errors := Some [''e''], Warnings := Some [''w'']\<rparr>
                    :: IngressInfo StatusResponse) = 202
   \<and> handler_status (status_zero\<lparr>Warnings := Some [''w'']\<rparr>
                    :: IngressInfo StatusResponse) = 201
   \<and> handler_status (status_zero\<lparr>Errors := Some []\<rparr> :: IngressInfo StatusResponse) = 200
   \<and> handler_status (status_zero :: CertificateInfo' StatusResponse) = 200"
  using
    handler_status_tiers
      [of "status_zero\<lparr>Errors := Some [''e''], Warnings := Some [''w'']\<rparr>
             :: IngressInfo StatusResponse"]
    handler_status_tiers
      [of "status_zero\<lparr>Warnings := Some [''w'']\<rparr> :: IngressInfo StatusResponse"]
    handler_status_tiers
      [of "status_zero\<lparr>Errors := Some []\<rparr> :: IngressInfo StatusResponse"]
    handler_status_tiers [of "status_zero :: CertificateInfo' StatusResponse"]
  by (simp add: status_zero_def elems_def)

section \<open>Days left\<close>

lemma sdiv_86400_bounds:
  fixes k :: int
  assumes "- (2 ^ 63) \<le> k" "k < 2 ^ 63"
  shows "- (2 ^ 63) \<le> k sdiv 86400 \<and> k sdiv 86400 < 2 ^ 63"
proof -
  have le: "\<bar>k\<bar> div 86400 \<le> \<bar>k\<bar>" by simp
  have ge: "0 \<le> \<bar>k\<bar> div 86400" by simp
  show ?thesis
  proof (cases "k < 0")
    case True
    then have "k sdiv 86400 = - (\<bar>k\<bar> div 86400)"
      by (simp add: signed_divide_int_def)
    with le ge True assms show ?thesis by linarith
  next
    case False
    then have "k sdiv 86400 = \<bar>k\<bar> div 86400"
      by (cases "k = 0") (simp_all add: signed_divide_int_def)
    with le ge False assms show ?thesis by linarith
  qed
qed

text \<open>The quotient by 86400 always fits: the division itself never wraps.\<close>

lemma sint_quo_86400: "sint (quo_int64 a 86400) = sint a sdiv 86400"
proof -
  have r: "- (2 ^ 63) \<le> sint a \<and> sint a < 2 ^ 63"
    using sint_ge [of a] sint_lt [of a] by simp
  then have b: "- (2 ^ 63) \<le> sint a sdiv 86400 \<and> sint a sdiv 86400 < 2 ^ 63"
    using sdiv_86400_bounds [of "sint a"] by simp
  have "sint (quo_int64 a 86400) = signed_take_bit 63 (sint a sdiv 86400)"
    by (simp add: quo_int64_def sint_sbintrunc')
  also have "\<dots> = sint a sdiv 86400"
    using b by (intro signed_take_bit_int_eq_self) simp_all
  finally show ?thesis .
qed

lemma sint_diff_no_overflow:
  fixes a b :: int64
  assumes "- (2 ^ 63) \<le> sint a - sint b" "sint a - sint b < 2 ^ 63"
  shows "sint (a - b) = sint a - sint b"
  using assms by (simp add: sint_word_diff signed_take_bit_int_eq_self)

lemma sdiv_nonneg: "0 \<le> (k::int) \<Longrightarrow> k sdiv 86400 = k div 86400"
  by (cases "k = 0") (simp_all add: signed_divide_int_def)

lemma sdiv_neg: "(k::int) < 0 \<Longrightarrow> \<not> 86400 dvd k \<Longrightarrow> k sdiv 86400 = k div 86400 + 1"
  by (simp add: signed_divide_int_eq_divide_int)

text \<open>
  C4, as the code has it. Where the difference \<open>d\<close> of the two readings in seconds
  fits 64 bits (it does for every date a certificate can carry), \<open>daysLeft\<close> is
  \<open>d / 86400\<close> truncated towards zero. That is the floor when \<open>d\<close> is not negative;
  for a negative \<open>d\<close> that is not a whole number of days it is the floor plus one.
\<close>

theorem daysLeft_truncates:
  fixes x509Data :: x509_Certificate and now :: int64
  defines "d \<equiv> sint (Unix (x509_NotAfter x509Data)) - sint now"
  assumes "- (2 ^ 63) \<le> d" and "d < 2 ^ 63"
  shows "sint (daysLeft x509Data now) = sgn d * (\<bar>d\<bar> div 86400)
         \<and> (0 \<le> d \<longrightarrow> sint (daysLeft x509Data now) = d div 86400)
         \<and> (d < 0 \<and> \<not> 86400 dvd d \<longrightarrow> sint (daysLeft x509Data now) = d div 86400 + 1)"
proof -
  have "sint (daysLeft x509Data now) = d sdiv 86400"
    using assms by (simp add: daysLeft_def sint_quo_86400 sint_diff_no_overflow)
  then show ?thesis
    using sdiv_nonneg [of d] sdiv_neg [of d] by (simp add: signed_divide_int_def)
qed

theorem daysLeft_truncates_witness:
  "sint (daysLeft (cert_ex 172800) 1) = 1 \<and> sint (daysLeft (cert_ex 0) 86401) = - 1"
  using daysLeft_truncates [of "cert_ex 172800" 1] daysLeft_truncates [of "cert_ex 0" 86401]
  by (simp add: cert_ex_def)

text \<open>
  C4, as the specification words it, fails one second after expiry: the floor of
  \<open>-1 / 86400\<close> is \<open>-1\<close>, and the code computes 0.
\<close>

theorem daysLeft_floor_counterexample:
  "sint (daysLeft (cert_ex 0) 1)
     \<noteq> (sint (Unix (x509_NotAfter (cert_ex 0))) - sint (1 :: int64)) div 86400"
  by (simp add: daysLeft_def cert_ex_def quo_int64_def signed_divide_int_def)

section \<open>Failure of the enumeration\<close>

text \<open>
  C8. When the listing of the namespaces fails, the cycle returns one error (the text of
  the failure), no warnings and no records, in both variants, and the snapshot that the
  loop of \<open>main\<close> installs holds exactly that, whatever the snapshot before held.
\<close>

theorem enumeration_failure:
  assumes "Namespaces_List (KubeClient appConfig) = Inl e"
  shows "getIngresses lib appConfig now = (None, None, Some [e])
         \<and> refresh lib appConfig now nowString currentStatus
             = \<lparr>LastUpdated = nowString, Errors = Some [e], Warnings = None,
                Certificates = None\<rparr>
         \<and> getCertificateList lib appConfig now = (None, None, Some [e])
         \<and> refresh' lib appConfig now nowString currentStatus'
             = \<lparr>LastUpdated = nowString, Errors = Some [e], Warnings = None,
                Certificates = None\<rparr>"
  using assms
  by (simp add: getIngresses_def refresh_def getCertificateList_def refresh'_def
      append_slice_def elems_def)

theorem enumeration_failure_witness:
  "Namespaces_List (KubeClient (config_ex client_unauthorized)) = Inl ''Unauthorized''
   \<and> refresh (lib_ex 0) (config_ex client_unauthorized) 0 ''T1''
        \<lparr>LastUpdated = ''T0'', Errors = None, Warnings = None,
         Certificates = Some [\<lparr>Name = ''web'', Namespace = ''prod'', Hosts = [],
           TLSSecretName = ''web-tls'', x509 = None, CertificateInfo = None\<rparr>]\<rparr>
       = \<lparr>LastUpdated = ''T1'', Errors = Some [''Unauthorized''], Warnings = None,
          Certificates = None\<rparr>"
  using enumeration_failure
    [of "config_ex client_unauthorized" "''Unauthorized''" "lib_ex 0" 0 "''T1''"]
  by (simp add: config_ex_def client_unauthorized_def client_ex_def)

section \<open>Normalisation of the lists\<close>

text \<open>
  After the loop \<open>getCertificateList\<close> replaces a nil \<open>warnings\<close> and a nil \<open>errors\<close>
  by empty slices.
\<close>

lemma getCertificateList_normalized:
  assumes "Namespaces_List (KubeClient appConfig) = Inr namespaces"
      and "getCertificateList lib appConfig now = (l, warnings, errors)"
  shows "warnings \<noteq> None \<and> errors \<noteq> None"
  using assms
  by (auto simp: getCertificateList_def make_slice0_def Let_def split: prod.splits if_splits)

text \<open>
  C10. The return on a failed listing of the namespaces comes before that
  replacement: there \<open>warnings\<close> is returned nil, and is written as \<open>null\<close>.
\<close>

theorem normalization_skipped_on_enumeration_failure:
  "getCertificateList (lib_ex 0) (config_ex client_unauthorized) 0
   = (None, None, Some [''Unauthorized''])"
  by (simp add: getCertificateList_def config_ex_def client_unauthorized_def client_ex_def
      append_slice_def elems_def)

section \<open>Loops\<close>

lemma fold_preserves:
  assumes "\<And>y acc. P acc \<Longrightarrow> P (f y acc)" and "P acc"
  shows "P (fold f xs acc)"
  using assms(2) by (induction xs arbitrary: acc) (simp_all add: assms(1))

lemma fold_reaches:
  assumes "x \<in> set xs" and "\<And>acc. P (f x acc)" and "\<And>y acc. P acc \<Longrightarrow> P (f y acc)"
  shows "P (fold f xs acc)"
proof -
  from assms(1) obtain ys zs where xs: "xs = ys @ x # zs"
    by (auto simp: in_set_conv_decomp)
  have "P (fold f zs (f x (fold f ys acc)))"
    by (rule fold_preserves [of P f]) (erule assms(3), rule assms(2))
  then show ?thesis by (simp add: xs)
qed

lemma prefix_elems_append_slice: "prefix (elems s) (elems (append_slice s x))"
  by (simp add: elems_append_slice)

lemma expiryLadder_errors_prefix:
  "expiryLadder appConfig ns n dl (w, e, ci) = (w', e', ci') \<Longrightarrow> prefix (elems e) (elems e')"
  by (auto simp: expiryLadder_def elems_append_slice split: if_splits)

lemma hostsLoop_result:
  "hostsLoop lib x ns n hosts (e, ci) = (e', ci') \<Longrightarrow>
     elems e' = elems e @ map (msg_host ns n) (filter (\<lambda>h. \<not> VerifyHostname lib x h) hosts)
     \<and> ci' = ci\<lparr>IsValid := IsValid ci \<and> (\<forall>h \<in> set hosts. VerifyHostname lib x h)\<rparr>"
proof (induction hosts arbitrary: e ci)
  case Nil
  then show ?case by simp
next
  case (Cons h hs)
  show ?case
  proof (cases "VerifyHostname lib x h")
    case True
    with Cons.prems have "hostsLoop lib x ns n hs (e, ci) = (e', ci')" by simp
    from Cons.IH [OF this] True show ?thesis by simp
  next
    case False
    with Cons.prems have
      "hostsLoop lib x ns n hs (append_slice e (msg_host ns n h), ci\<lparr>IsValid := False\<rparr>) = (e', ci')"
      by simp
    from Cons.IH [OF this] False show ?thesis by (simp add: elems_append_slice)
  qed
qed

lemma tlsSpecStep_errors_prefix:
  assumes "tlsSpecStep lib appConfig now ns ingress t (l, w, e) = (l', w', e')"
  shows "prefix (elems e) (elems e')"
proof (cases "getx509Data lib (KubeClient appConfig) (newIngressInfo ns ingress t)")
  case (Inl err)
  with assms show ?thesis
    by (auto simp: tlsSpecStep_def elems_append_slice)
next
  case (Inr x)
  obtain w1 e1 ci1 where lad: "expiryLadder appConfig ns (ingress_Name ingress) (daysLeft x now)
      (w, e, newCertInfo x (daysLeft x now)) = (w1, e1, ci1)"
    by (metis prod_cases3)
  obtain e2 ci2 where hl: "hostsLoop lib x ns (ingress_Name ingress) (tls_Hosts t) (e1, ci1) = (e2, ci2)"
    by (metis surj_pair)
  from assms Inr lad hl have "e' = e2"
    by (simp add: tlsSpecStep_def Let_def)
  moreover have "prefix (elems e) (elems e1)" using lad by (rule expiryLadder_errors_prefix)
  moreover have "prefix (elems e1) (elems e2)" using hostsLoop_result [OF hl] by simp
  ultimately show ?thesis by (auto intro: prefix_order.trans)
qed

lemma tlsSpecStep_keeps_error:
  assumes "e \<in> set (elems (snd (snd acc)))"
  shows "e \<in> set (elems (snd (snd (tlsSpecStep lib appConfig now ns ingress t acc))))"
proof -
  obtain l w es where acc: "acc = (l, w, es)" by (metis prod_cases3)
  obtain l' w' es' where r: "tlsSpecStep lib appConfig now ns ingress t (l, w, es) = (l', w', es')"
    by (metis prod_cases3)
  from tlsSpecStep_errors_prefix [OF r] have "set (elems es) \<subseteq> set (elems es')"
    by (rule set_mono_prefix)
  with assms acc r show ?thesis by auto
qed

lemma getIngresses_reaches:
  assumes nss: "Namespaces_List (KubeClient appConfig) = Inr namespaces"
      and ns: "ns \<in> set namespaces"
      and ing: "ingress \<in> set (fst (Ingresses_List (KubeClient appConfig) ns))"
      and t: "t \<in> set (ingress_Spec_TLS ingress)"
      and hit: "\<And>acc. P (tlsSpecStep lib appConfig now ns ingress t acc)"
      and keep: "\<And>ns' ingress' t' acc. P acc \<Longrightarrow> P (tlsSpecStep lib appConfig now ns' ingress' t' acc)"
  shows "P (getIngresses lib appConfig now)"
proof -
  have keep_i: "P (ingressStep lib appConfig now ns' i acc)" if "P acc" for ns' i acc
    unfolding ingressStep_def by (rule fold_preserves [of P]) (erule keep, rule that)
  have keep_n: "P (namespaceStep lib appConfig now None ns' acc)" if "P acc" for ns' acc
  proof -
    have "P (fold (ingressStep lib appConfig now ns') ings acc)" for ings
      by (rule fold_preserves [of P]) (erule keep_i, rule that)
    then show ?thesis by (simp add: namespaceStep_def split: prod.splits)
  qed
  have hit_i: "P (ingressStep lib appConfig now ns ingress acc)" for acc
    unfolding ingressStep_def by (rule fold_reaches [of t _ P]) (rule t, rule hit, erule keep)
  have hit_n: "P (namespaceStep lib appConfig now None ns acc)" for acc
  proof -
    obtain ings lerr where l: "Ingresses_List (KubeClient appConfig) ns = (ings, lerr)"
      by (metis surj_pair)
    with ing have "ingress \<in> set ings" by simp
    then have "P (fold (ingressStep lib appConfig now ns) ings acc)"
      by (rule fold_reaches [of ingress _ P]) (rule hit_i, erule keep_i)
    with l show ?thesis by (simp add: namespaceStep_def)
  qed
  have "P (fold (namespaceStep lib appConfig now None) namespaces (None, None, None))"
    by (rule fold_reaches [of ns _ P]) (rule ns, rule hit_n, erule keep_n)
  with nss show ?thesis by (simp add: getIngresses_def)
qed

lemma getx509Data_fails_iff:
  "(\<exists>e. getx509Data lib client ii = Inl e) \<longleftrightarrow>
     (case Secrets_Get client (Namespace ii) (TLSSecretName ii) of
        Inl err \<Rightarrow> True
      | Inr secret \<Rightarrow>
          (case secret_Data secret ''tls.crt'' of
             None \<Rightarrow> True
           | Some tlsCrt \<Rightarrow>
               tlsCrt = [] \<or> pem_Decode lib tlsCrt = None
               \<or> (\<exists>block. pem_Decode lib tlsCrt = Some block
                      \<and> x509_ParseCertificate lib block = None)))"
  by (auto simp: getx509Data_def split: sum.splits option.splits)

lemma getx509Data_error_text:
  assumes "getx509Data lib client ii = Inl e"
  shows "Secrets_Get client (Namespace ii) (TLSSecretName ii) = Inl e
         \<or> sublist (Namespace ii @ ''/'' @ TLSSecretName ii) e"
proof (cases "Secrets_Get client (Namespace ii) (TLSSecretName ii)")
  case (Inl err)
  with assms show ?thesis by (simp add: getx509Data_def)
next
  case (Inr secret)
  let ?id = "Namespace ii @ ''/'' @ TLSSecretName ii"
  from assms Inr have "e = ''tls.crt does not exist in '' @ ?id @ []
      \<or> e = ''tls.crt for '' @ ?id @ '' is empty''
      \<or> e = ''Failed to decode certificate '' @ ?id @ []
      \<or> e = ''Failed to parse certificate '' @ ?id @ []"
    by (auto simp: getx509Data_def split: option.splits if_splits)
  then have "sublist ?id e"
    by (elim disjE) (simp_all only: sublist_appendI)
  then show ?thesis ..
qed

lemma tlsSpecStep_failure:
  assumes "getx509Data lib (KubeClient appConfig) (newIngressInfo ns ingress t) = Inl e"
  shows "tlsSpecStep lib appConfig now ns ingress t (l, w, es) = (l, w, Some (elems es @ [e]))"
  using assms by (simp add: tlsSpecStep_def append_slice_def)

section \<open>Failure of a source\<close>

text \<open>The second variant records a failure of \<open>getx509Data\<close> in the same way.\<close>

lemma getx509Data'_error_text:
  assumes "getx509Data' lib secret = Inl e"
  shows "sublist (secret_Namespace secret @ ''/'' @ secret_Name secret) e"
proof -
  let ?id = "secret_Namespace secret @ ''/'' @ secret_Name secret"
  from assms have "e = ''tls.crt does not exist in '' @ ?id @ []
      \<or> e = ''tls.crt for '' @ ?id @ '' is empty''
      \<or> e = ''Failed to decode certificate '' @ ?id @ []
      \<or> e = ''Failed to parse certificate '' @ ?id @ []"
    by (auto simp: getx509Data'_def split: option.splits if_splits)
  then show ?thesis
    by (elim disjE) (simp_all only: sublist_appendI)
qed

lemma secretStep_failure:
  assumes "secret_Type secret = ''kubernetes.io/tls''"
      and "secret_Labels secret ''kubed.appscode.com/origin.namespace'' = None"
      and "getx509Data' lib secret = Inl e"
  shows "secretStep lib appConfig now ns secret (l, w, es) = (l, w, Some (elems es @ [e]))"
  using assms by (simp add: secretStep_def append_slice_def)

text \<open>
  C7, as the code has it. A source whose secret cannot be read or parsed adds exactly
  one error and no record, and leaves the warnings as they are; the loop goes on, so the
  error is in the list that the cycle returns and the status of the snapshot is 202.
  The text of the error is the text of the cluster's error when reading the secret
  failed; otherwise it is one of four messages of the program, each holding the
  namespace and the name of the secret as \<open>namespace/secret\<close>.
\<close>

theorem source_failure_recorded:
  assumes "getx509Data lib (KubeClient appConfig) (newIngressInfo ns ingress t) = Inl e"
  shows "tlsSpecStep lib appConfig now ns ingress t (l, w, es) = (l, w, Some (elems es @ [e]))
         \<and> (Secrets_Get (KubeClient appConfig) ns (tls_SecretName t) = Inl e
            \<or> sublist (ns @ ''/'' @ tls_SecretName t) e)
         \<and> (Namespaces_List (KubeClient appConfig) = Inr namespaces \<and> ns \<in> set namespaces
            \<and> ingress \<in> set (fst (Ingresses_List (KubeClient appConfig) ns))
            \<and> t \<in> set (ingress_Spec_TLS ingress)
            \<longrightarrow> e \<in> set (elems (snd (snd (getIngresses lib appConfig now))))
                \<and> handler_status (refresh lib appConfig now nowString currentStatus) = 202)"
proof (intro conjI impI)
  show step: "tlsSpecStep lib appConfig now ns ingress t (l, w, es) = (l, w, Some (elems es @ [e]))"
    for l w es
    using assms by (rule tlsSpecStep_failure)
  show "Secrets_Get (KubeClient appConfig) ns (tls_SecretName t) = Inl e
        \<or> sublist (ns @ ''/'' @ tls_SecretName t) e"
    using getx509Data_error_text [OF assms] by (simp add: newIngressInfo_def)
  assume a: "Namespaces_List (KubeClient appConfig) = Inr namespaces \<and> ns \<in> set namespaces
            \<and> ingress \<in> set (fst (Ingresses_List (KubeClient appConfig) ns))
            \<and> t \<in> set (ingress_Spec_TLS ingress)"
  have hit: "e \<in> set (elems (snd (snd (tlsSpecStep lib appConfig now ns ingress t acc))))" for acc
    by (cases acc) (simp add: step elems_def)
  show in_cycle: "e \<in> set (elems (snd (snd (getIngresses lib appConfig now))))"
    by (rule getIngresses_reaches [where P = "\<lambda>acc. e \<in> set (elems (snd (snd acc)))"
          and ns = ns and ingress = ingress and t = t and namespaces = namespaces])
       (use a in \<open>simp_all add: hit tlsSpecStep_keeps_error\<close>)
  then have "elems (Errors (refresh lib appConfig now nowString currentStatus)) \<noteq> []"
    by (auto simp: refresh_def split: prod.splits)
  then show "handler_status (refresh lib appConfig now nowString currentStatus) = 202"
    by (simp add: handler_status_def len_def)
qed

theorem source_failure_recorded_witness:
  "getx509Data (lib_ex 0) (KubeClient (config_ex client_get_fails))
     (newIngressInfo ''prod'' (ingress_ex [''a.example.com''])
        (tls_ex [''a.example.com'']))
     = Inl ''etcdserver: request timed out''
   \<and> ''etcdserver: request timed out''
        \<in> set (elems (snd (snd (getIngresses (lib_ex 0) (config_ex client_get_fails) 0))))
   \<and> handler_status (refresh (lib_ex 0) (config_ex client_get_fails) 0 ''T1'' status_zero) = 202"
proof -
  have h: "getx509Data (lib_ex 0) (KubeClient (config_ex client_get_fails))
     (newIngressInfo ''prod'' (ingress_ex [''a.example.com''])
        (tls_ex [''a.example.com'']))
     = Inl ''etcdserver: request timed out''"
    by (simp add: getx509Data_def config_ex_def client_get_fails_def client_ex_def)
  show ?thesis
    using h source_failure_recorded
      [OF h, where namespaces = "[''prod'']" and now = 0 and nowString = "''T1''"
         and currentStatus = status_zero]
    by (simp add: config_ex_def client_get_fails_def client_ex_def ingress_ex_def tls_ex_def)
qed

text \<open>
  C7, as the specification words it, fails when reading the secret fails: the error that
  is recorded is the text of the cluster's error, which here names neither the
  namespace \<open>prod\<close> nor the ingress \<open>web\<close>.
\<close>

theorem source_failure_text_counterexample:
  "getIngresses (lib_ex 0) (config_ex client_get_fails) 0
     = (None, None, Some [''etcdserver: request timed out''])
   \<and> \<not> sublist ''prod'' ''etcdserver: request timed out''
   \<and> \<not> sublist ''web'' ''etcdserver: request timed out''"
proof (intro conjI)
  show "getIngresses (lib_ex 0) (config_ex client_get_fails) 0
     = (None, None, Some [''etcdserver: request timed out''])"
    by (simp add: getIngresses_def namespaceStep_def ingressStep_def tlsSpecStep_def
        newIngressInfo_def getx509Data_def config_ex_def client_get_fails_def client_ex_def
        ingress_ex_def tls_ex_def append_slice_def elems_def)
  show "\<not> sublist ''prod'' ''etcdserver: request timed out''"
    by code_simp
  show "\<not> sublist ''web'' ''etcdserver: request timed out''"
    by code_simp
qed

section \<open>Failure of a listing inside a namespace\<close>

lemma tlsSpecStep_client_cong:
  assumes "Secrets_Get (KubeClient appConfig') = Secrets_Get (KubeClient appConfig)"
      and "CritDaysLeft appConfig' = CritDaysLeft appConfig"
      and "WarnDaysLeft appConfig' = WarnDaysLeft appConfig"
  shows "tlsSpecStep lib appConfig' now ns ingress t = tlsSpecStep lib appConfig now ns ingress t"
proof -
  have e1: "expiryLadder appConfig' = expiryLadder appConfig"
    using assms by (simp add: expiryLadder_def fun_eq_iff)
  have e2: "getx509Data lib (KubeClient appConfig') = getx509Data lib (KubeClient appConfig)"
    using assms by (simp add: getx509Data_def fun_eq_iff)
  show ?thesis unfolding tlsSpecStep_def e1 e2 by (rule refl)
qed

lemma secretStep_client_cong:
  assumes "CritDaysLeft appConfig' = CritDaysLeft appConfig"
      and "WarnDaysLeft appConfig' = WarnDaysLeft appConfig"
  shows "secretStep lib appConfig' now ns secret = secretStep lib appConfig now ns secret"
proof -
  have e1: "expiryLadder' appConfig' = expiryLadder' appConfig"
    using assms by (simp add: expiryLadder'_def fun_eq_iff)
  show ?thesis unfolding secretStep_def e1 by (rule refl)
qed

lemma fold_skip:
  assumes "\<And>acc. f x acc = acc"
  shows "fold f (filter (\<lambda>y. y \<noteq> x) xs) acc = fold f xs acc"
  by (induction xs arbitrary: acc) (simp_all add: assms)

lemma namespaceStep_without:
  "namespaceStep lib (without_namespace ns appConfig) now err
     = namespaceStep lib appConfig now err"
proof -
  have "tlsSpecStep lib (without_namespace ns appConfig) now = tlsSpecStep lib appConfig now"
    by (intro ext tlsSpecStep_client_cong) (simp_all add: without_namespace_def)
  then have S: "ingressStep lib (without_namespace ns appConfig) now
                  = ingressStep lib appConfig now"
    by (intro ext) (simp only: ingressStep_def)
  have L: "Ingresses_List (KubeClient (without_namespace ns appConfig))
             = Ingresses_List (KubeClient appConfig)"
    by (simp add: without_namespace_def)
  show ?thesis
    by (intro ext) (simp add: namespaceStep_def L S split: prod.splits)
qed

lemma namespaceStep'_without:
  "namespaceStep' lib (without_namespace ns appConfig) now err
     = namespaceStep' lib appConfig now err"
proof -
  have S: "secretStep lib (without_namespace ns appConfig) now = secretStep lib appConfig now"
    by (intro ext secretStep_client_cong) (simp_all add: without_namespace_def)
  have L: "Secrets_List (KubeClient (without_namespace ns appConfig))
             = Secrets_List (KubeClient appConfig)"
    by (simp add: without_namespace_def)
  show ?thesis
    by (intro ext) (simp add: namespaceStep'_def L S split: prod.splits)
qed

lemma namespaceStep_failed_listing:
  assumes "Ingresses_List (KubeClient appConfig) ns = ([], Some e)"
  shows "namespaceStep lib appConfig now None ns acc = acc"
  using assms by (simp add: namespaceStep_def)

lemma namespaceStep'_failed_listing:
  assumes "Secrets_List (KubeClient appConfig) ns = ([], Some e)"
  shows "namespaceStep' lib appConfig now None ns acc = acc"
  using assms by (simp add: namespaceStep'_def)

lemma getIngresses_without:
  assumes "Ingresses_List (KubeClient appConfig) ns = ([], Some e)"
  shows "getIngresses lib (without_namespace ns appConfig) now = getIngresses lib appConfig now"
proof (cases "Namespaces_List (KubeClient appConfig)")
  case (Inl err)
  then show ?thesis by (simp add: getIngresses_def without_namespace_def)
next
  case (Inr namespaces)
  then have N: "Namespaces_List (KubeClient (without_namespace ns appConfig))
                  = Inr (filter (\<lambda>n. n \<noteq> ns) namespaces)"
    by (simp add: without_namespace_def)
  have "fold (namespaceStep lib appConfig now None) (filter (\<lambda>n. n \<noteq> ns) namespaces) acc
          = fold (namespaceStep lib appConfig now None) namespaces acc" for acc
    by (rule fold_skip) (rule namespaceStep_failed_listing [OF assms])
  then show ?thesis
    by (simp add: getIngresses_def N Inr namespaceStep_without)
qed

lemma getCertificateList_without:
  assumes "Secrets_List (KubeClient appConfig) ns = ([], Some e)"
  shows "getCertificateList lib (without_namespace ns appConfig) now
           = getCertificateList lib appConfig now"
proof (cases "Namespaces_List (KubeClient appConfig)")
  case (Inl err)
  then show ?thesis by (simp add: getCertificateList_def without_namespace_def)
next
  case (Inr namespaces)
  then have N: "Namespaces_List (KubeClient (without_namespace ns appConfig))
                  = Inr (filter (\<lambda>n. n \<noteq> ns) namespaces)"
    by (simp add: without_namespace_def)
  have "fold (namespaceStep' lib appConfig now None) (filter (\<lambda>n. n \<noteq> ns) namespaces) acc
          = fold (namespaceStep' lib appConfig now None) namespaces acc" for acc
    by (rule fold_skip) (rule namespaceStep'_failed_listing [OF assms])
  then show ?thesis
    by (simp add: getCertificateList_def N Inr namespaceStep'_without)
qed

text \<open>
  C9, as the code has it. A failure of a per-namespace listing is not recorded: when the
  listing of a namespace fails (no items and an error), the namespace leaves the records,
  warnings and errors of the cycle as they are, and the cycle returns what it returns for
  the cluster without that namespace, in both variants.
\<close>

theorem listing_failure_not_recorded:
  "(Ingresses_List (KubeClient appConfig) ns = ([], Some e) \<longrightarrow>
      namespaceStep lib appConfig now None ns acc = acc
      \<and> getIngresses lib (without_namespace ns appConfig) now = getIngresses lib appConfig now)
   \<and> (Secrets_List (KubeClient appConfig) ns = ([], Some e') \<longrightarrow>
      namespaceStep' lib appConfig now None ns acc' = acc'
      \<and> getCertificateList lib (without_namespace ns appConfig) now
          = getCertificateList lib appConfig now)"
  by (intro conjI impI namespaceStep_failed_listing namespaceStep'_failed_listing
      getIngresses_without getCertificateList_without)

theorem listing_failure_not_recorded_witness:
  "Ingresses_List (KubeClient (config_ex client_one_listing_fails)) ''dev''
     = ([], Some ''etcdserver: request timed out'')
   \<and> Secrets_List (KubeClient (config_ex client_one_listing_fails)) ''dev''
     = ([], Some ''etcdserver: request timed out'')
   \<and> Namespaces_List (KubeClient (without_namespace ''dev'' (config_ex client_one_listing_fails)))
     = Inr [''prod'']
   \<and> namespaceStep (lib_ex 0) (config_ex client_one_listing_fails) 0 None ''dev''
        (None, Some [''w''], Some [''e'']) = (None, Some [''w''], Some [''e''])
   \<and> getIngresses (lib_ex 0) (without_namespace ''dev'' (config_ex client_one_listing_fails)) 0
       = getIngresses (lib_ex 0) (config_ex client_one_listing_fails) 0
   \<and> namespaceStep' (lib_ex 0) (config_ex client_one_listing_fails) 0 None ''dev''
        (None, Some [''w''], Some [''e'']) = (None, Some [''w''], Some [''e''])
   \<and> getCertificateList (lib_ex 0) (without_namespace ''dev'' (config_ex client_one_listing_fails)) 0
       = getCertificateList (lib_ex 0) (config_ex client_one_listing_fails) 0"
proof -
  have a: "Ingresses_List (KubeClient (config_ex client_one_listing_fails)) ''dev''
     = ([], Some ''etcdserver: request timed out'')"
    and b: "Secrets_List (KubeClient (config_ex client_one_listing_fails)) ''dev''
     = ([], Some ''etcdserver: request timed out'')"
    and c: "Namespaces_List (KubeClient (without_namespace ''dev'' (config_ex client_one_listing_fails)))
     = Inr [''prod'']"
    by (simp_all add: config_ex_def client_one_listing_fails_def client_ex_def without_namespace_def)
  from a b c listing_failure_not_recorded
    [of "config_ex client_one_listing_fails" "''dev''" "''etcdserver: request timed out''"
        "lib_ex 0" 0 "(None, Some [''w''], Some [''e''])" "''etcdserver: request timed out''"
        "(None, Some [''w''], Some [''e''])"]
  show ?thesis by blast
qed

text \<open>
  C9, as the specification words it, fails: with a namespace whose listing fails, the
  cycle of the first variant returns nil errors and that of the second empty errors.
\<close>

theorem listing_failure_counterexample:
  "Ingresses_List (KubeClient (config_ex client_listing_fails)) ''prod''
     = ([], Some ''etcdserver: request timed out'')
   \<and> getIngresses (lib_ex 0) (config_ex client_listing_fails) 0 = (None, None, None)
   \<and> Secrets_List (KubeClient (config_ex client_listing_fails)) ''prod''
     = ([], Some ''etcdserver: request timed out'')
   \<and> getCertificateList (lib_ex 0) (config_ex client_listing_fails) 0 = (None, Some [], Some [])"
  by (simp add: getIngresses_def getCertificateList_def namespaceStep_def namespaceStep'_def
      config_ex_def client_listing_fails_def client_ex_def make_slice0_def)

section \<open>The hostname check\<close>

lemma hostsLoop_eq:
  "hostsLoop lib x ns n hosts (e, ci) =
     (foldl append_slice e (map (msg_host ns n) (filter (\<lambda>h. \<not> VerifyHostname lib x h) hosts)),
      ci\<lparr>IsValid := IsValid ci \<and> (\<forall>h \<in> set hosts. VerifyHostname lib x h)\<rparr>)"
  by (induction hosts arbitrary: e ci) simp_all

lemma sublist_msg_host: "sublist h (msg_host ns n h)"
  unfolding msg_host_def by (metis append.assoc append_Nil2 sublist_appendI)

lemma tlsSpecStep_parsed:
  assumes "getx509Data lib (KubeClient appConfig) (newIngressInfo ns ingress t) = Inr x"
      and "expiryLadder appConfig ns (ingress_Name ingress) (daysLeft x now)
             (w, es, newCertInfo x (daysLeft x now)) = (w1, es1, ci1)"
  shows "tlsSpecStep lib appConfig now ns ingress t (l, w, es) =
           (append_slice l ((newIngressInfo ns ingress t)
              \<lparr>x509 := Some x,
               CertificateInfo := Some (ci1\<lparr>IsValid := IsValid ci1
                  \<and> (\<forall>h \<in> set (tls_Hosts t). VerifyHostname lib x h)\<rparr>)\<rparr>),
            w1,
            foldl append_slice es1
              (map (msg_host ns (ingress_Name ingress))
                 (filter (\<lambda>h. \<not> VerifyHostname lib x h) (tls_Hosts t))))"
  using assms by (simp add: tlsSpecStep_def Let_def hostsLoop_eq)

lemma parsed_ex:
  "getx509Data (lib_ex t) (KubeClient (config_ex (client_ex hosts)))
     (newIngressInfo ''prod'' (ingress_ex hosts) (tls_ex hosts)) = Inr (cert_ex t)"
  by (simp add: getx509Data_def config_ex_def client_ex_def lib_ex_def secret_ex_def
      newIngressInfo_def tls_ex_def)

lemma daysLeft_ex: "daysLeft (cert_ex 8640000) 0 = 100"
  by (simp add: daysLeft_def cert_ex_def quo_int64_def signed_divide_int_def)

lemma ladder_ex:
  "expiryLadder (config_ex c) ''prod'' ''web'' 100 (None, None, ci) = (None, None, ci)"
  by (simp add: expiryLadder_def config_ex_def)

section \<open>Hostname mismatch and the status code\<close>

lemma foldl_append_slice_nonempty:
  "xs \<noteq> [] \<Longrightarrow> foldl append_slice s xs = Some (elems s @ xs)"
proof (induction xs arbitrary: s)
  case Nil
  then show ?case by simp
next
  case (Cons x xs)
  show ?case
  proof (cases "xs = []")
    case True
    then show ?thesis by (simp add: append_slice_def)
  next
    case False
    from Cons.IH [OF False] show ?thesis by (simp add: elems_append_slice)
  qed
qed

lemma expiryLadder_OK:
  assumes "spec_severity (sint (CritDaysLeft appConfig)) (sint (WarnDaysLeft appConfig)) (sint dl) = OK"
  shows "expiryLadder appConfig ns n dl (w, es, ci) = (w, es, ci)"
  using assms by (simp add: expiryLadder_def spec_severity_def split: if_splits)

text \<open>
  C3, as the code has it. For a certificate far from expiry (no diagnostic of the
  ladder) and an expected host \<open>h\<close> that \<open>VerifyHostname\<close> rejects: the record has
  \<open>IsValid = False\<close>, the diagnostics of the failing hosts, the one naming \<open>h\<close> among
  them, are appended to the errors, the warnings stay as they are, and the status of the
  snapshot of a cycle that meets this source is 202.
\<close>

theorem hostname_mismatch_is_an_error:
  assumes parsed: "getx509Data lib (KubeClient appConfig) (newIngressInfo ns ingress t) = Inr x"
      and far: "spec_severity (sint (CritDaysLeft appConfig)) (sint (WarnDaysLeft appConfig))
                  (sint (daysLeft x now)) = OK"
      and h: "h \<in> set (tls_Hosts t)" and miss: "\<not> VerifyHostname lib x h"
  shows "tlsSpecStep lib appConfig now ns ingress t (l, w, es) =
           (append_slice l ((newIngressInfo ns ingress t)
              \<lparr>x509 := Some x,
               CertificateInfo := Some ((newCertInfo x (daysLeft x now))\<lparr>IsValid := False\<rparr>)\<rparr>),
            w,
            Some (elems es @ map (msg_host ns (ingress_Name ingress))
                    (filter (\<lambda>h. \<not> VerifyHostname lib x h) (tls_Hosts t))))
         \<and> msg_host ns (ingress_Name ingress) h
              \<in> set (map (msg_host ns (ingress_Name ingress))
                    (filter (\<lambda>h. \<not> VerifyHostname lib x h) (tls_Hosts t)))
         \<and> sublist h (msg_host ns (ingress_Name ingress) h)
         \<and> (Namespaces_List (KubeClient appConfig) = Inr namespaces \<and> ns \<in> set namespaces
            \<and> ingress \<in> set (fst (Ingresses_List (KubeClient appConfig) ns))
            \<and> t \<in> set (ingress_Spec_TLS ingress)
            \<longrightarrow> handler_status (refresh lib appConfig now nowString currentStatus) = 202)"
proof (intro conjI impI)
  let ?bad = "filter (\<lambda>h. \<not> VerifyHostname lib x h) (tls_Hosts t)"
  let ?m = "msg_host ns (ingress_Name ingress)"
  from h miss have bad: "h \<in> set ?bad" by simp
  then have ne: "map ?m ?bad \<noteq> []" by (auto simp only: Nil_is_map_conv empty_iff list.set(1))
  from h miss have inv: "\<not> (\<forall>h \<in> set (tls_Hosts t). VerifyHostname lib x h)" by blast
  have valid: "IsValid (newCertInfo x (daysLeft x now))"
    by (simp add: newCertInfo_def Let_def)
  show step: "tlsSpecStep lib appConfig now ns ingress t (l, w, es) =
           (append_slice l ((newIngressInfo ns ingress t)
              \<lparr>x509 := Some x,
               CertificateInfo := Some ((newCertInfo x (daysLeft x now))\<lparr>IsValid := False\<rparr>)\<rparr>),
            w, Some (elems es @ map ?m ?bad))" for l w es
  proof -
    have "tlsSpecStep lib appConfig now ns ingress t (l, w, es) =
           (append_slice l ((newIngressInfo ns ingress t)
              \<lparr>x509 := Some x,
               CertificateInfo := Some ((newCertInfo x (daysLeft x now))\<lparr>IsValid := False\<rparr>)\<rparr>),
            w, foldl append_slice es (map ?m ?bad))"
      using tlsSpecStep_parsed [OF parsed expiryLadder_OK [OF far]] inv by simp
    then show ?thesis by (simp only: foldl_append_slice_nonempty [OF ne])
  qed
  show "?m h \<in> set (map ?m ?bad)" using bad by (simp only: set_map image_eqI [where f = ?m])
  show "sublist h (?m h)" by (rule sublist_msg_host)
  assume a: "Namespaces_List (KubeClient appConfig) = Inr namespaces \<and> ns \<in> set namespaces
            \<and> ingress \<in> set (fst (Ingresses_List (KubeClient appConfig) ns))
            \<and> t \<in> set (ingress_Spec_TLS ingress)"
  have hit: "?m h \<in> set (elems (snd (snd (tlsSpecStep lib appConfig now ns ingress t acc))))" for acc
    using bad by (cases acc) (simp add: step elems_def)
  have "?m h \<in> set (elems (snd (snd (getIngresses lib appConfig now))))"
    by (rule getIngresses_reaches [where P = "\<lambda>acc. ?m h \<in> set (elems (snd (snd acc)))"
          and ns = ns and ingress = ingress and t = t and namespaces = namespaces])
       (use a in \<open>simp_all add: hit tlsSpecStep_keeps_error\<close>)
  then have "elems (Errors (refresh lib appConfig now nowString currentStatus)) \<noteq> []"
    by (auto simp: refresh_def split: prod.splits)
  then show "handler_status (refresh lib appConfig now nowString currentStatus) = 202"
    by (simp add: handler_status_def len_def)
qed

lemma example_fields:
  "KubeClient (config_ex c) = c"
  "Namespaces_List (client_ex hs) = Inr [''prod'']"
  "Ingresses_List (client_ex hs) ns = ([ingress_ex hs], None)"
  "ingress_Spec_TLS (ingress_ex hs) = [tls_ex hs]"
  "ingress_Name (ingress_ex hs) = ''web''"
  by (simp_all add: config_ex_def client_ex_def ingress_ex_def)

lemma cycle_ex:
  "getIngresses (lib_ex 8640000) (config_ex (client_ex hosts_ab)) 0 =
     (Some [(newIngressInfo ''prod'' (ingress_ex hosts_ab) (tls_ex hosts_ab))
        \<lparr>x509 := Some (cert_ex 8640000),
         CertificateInfo := Some ((newCertInfo (cert_ex 8640000) 100)\<lparr>IsValid := False\<rparr>)\<rparr>],
      None,
      Some [''certificate for prod/web is not valid for host b.example.com''])"
proof -
  have far: "spec_severity (sint (CritDaysLeft (config_ex (client_ex hosts_ab))))
      (sint (WarnDaysLeft (config_ex (client_ex hosts_ab))))
      (sint (daysLeft (cert_ex 8640000) 0)) = OK"
    by (simp add: daysLeft_ex spec_severity_def config_ex_def)
  have h: "''b.example.com'' \<in> set (tls_Hosts (tls_ex hosts_ab))"
    by (simp add: tls_ex_def hosts_ab_def)
  have miss: "\<not> VerifyHostname (lib_ex 8640000) (cert_ex 8640000) ''b.example.com''"
    by (simp add: lib_ex_def cert_ex_def)
  have bad: "filter (\<lambda>h. \<not> VerifyHostname (lib_ex 8640000) (cert_ex 8640000) h)
               (tls_Hosts (tls_ex hosts_ab)) = [''b.example.com'']"
    by (simp add: lib_ex_def cert_ex_def tls_ex_def hosts_ab_def)
  have allv: "(\<forall>x\<in>set (tls_Hosts (tls_ex hosts_ab)).
                 VerifyHostname (lib_ex 8640000) (cert_ex 8640000) x) = False"
    using h miss by blast
  have step: "tlsSpecStep (lib_ex 8640000) (config_ex (client_ex hosts_ab)) 0 ''prod''
      (ingress_ex hosts_ab) (tls_ex hosts_ab) (None, None, None) =
     (Some [(newIngressInfo ''prod'' (ingress_ex hosts_ab) (tls_ex hosts_ab))
        \<lparr>x509 := Some (cert_ex 8640000),
         CertificateInfo := Some ((newCertInfo (cert_ex 8640000) 100)\<lparr>IsValid := False\<rparr>)\<rparr>],
      None,
      Some [''certificate for prod/web is not valid for host b.example.com''])"
    using tlsSpecStep_parsed [OF parsed_ex, of hosts_ab "8640000" 0 None None None None "newCertInfo (cert_ex 8640000) 100" None]
    by (simp add: daysLeft_ex ladder_ex ingress_ex_def bad allv msg_host_def append_slice_def
        elems_def newCertInfo_def Let_def)
  show ?thesis
    by (simp add: getIngresses_def namespaceStep_def ingressStep_def step example_fields)
qed

lemma far_ex:
  "spec_severity (sint (CritDaysLeft (config_ex c))) (sint (WarnDaysLeft (config_ex c)))
      (sint (daysLeft (cert_ex 8640000) 0)) = OK"
  by (simp add: daysLeft_ex spec_severity_def config_ex_def)

lemma miss_ex:
  "''b.example.com'' \<in> set (tls_Hosts (tls_ex hosts_ab))"
  "\<not> VerifyHostname (lib_ex t) (cert_ex t) ''b.example.com''"
  by (simp_all add: tls_ex_def hosts_ab_def lib_ex_def cert_ex_def)

theorem hostname_mismatch_is_an_error_witness:
  "getx509Data (lib_ex 8640000) (KubeClient (config_ex (client_ex hosts_ab)))
     (newIngressInfo ''prod'' (ingress_ex hosts_ab) (tls_ex hosts_ab)) = Inr (cert_ex 8640000)
   \<and> spec_severity (sint (CritDaysLeft (config_ex (client_ex hosts_ab))))
        (sint (WarnDaysLeft (config_ex (client_ex hosts_ab))))
        (sint (daysLeft (cert_ex 8640000) 0)) = OK
   \<and> ''b.example.com'' \<in> set (tls_Hosts (tls_ex hosts_ab))
   \<and> \<not> VerifyHostname (lib_ex 8640000) (cert_ex 8640000) ''b.example.com''
   \<and> handler_status
        (refresh (lib_ex 8640000) (config_ex (client_ex hosts_ab)) 0 ''T1'' status_zero) = 202"
proof -
  have c: "Namespaces_List (KubeClient (config_ex (client_ex hosts_ab))) = Inr [''prod'']
           \<and> ''prod'' \<in> set [''prod'']
           \<and> ingress_ex hosts_ab
               \<in> set (fst (Ingresses_List (KubeClient (config_ex (client_ex hosts_ab))) ''prod''))
           \<and> tls_ex hosts_ab \<in> set (ingress_Spec_TLS (ingress_ex hosts_ab))"
    by (simp add: example_fields)
  from c hostname_mismatch_is_an_error
    [OF parsed_ex far_ex miss_ex, where namespaces = "[''prod'']" and nowString = "''T1''"
       and currentStatus = status_zero]
  have "handler_status
        (refresh (lib_ex 8640000) (config_ex (client_ex hosts_ab)) 0 ''T1'' status_zero) = 202"
    by blast
  with parsed_ex far_ex miss_ex show ?thesis by blast
qed

text \<open>
  C3, as the specification words it, fails: a certificate with 100 days left that does
  not cover \<open>b.example.com\<close> gives a non-empty errors list and a status other than 200.
\<close>

theorem hostname_mismatch_status_counterexample:
  "spec_severity (sint (CritDaysLeft (config_ex (client_ex hosts_ab))))
        (sint (WarnDaysLeft (config_ex (client_ex hosts_ab))))
        (sint (daysLeft (cert_ex 8640000) 0)) = OK
   \<and> \<not> VerifyHostname (lib_ex 8640000) (cert_ex 8640000) ''b.example.com''
   \<and> refresh (lib_ex 8640000) (config_ex (client_ex hosts_ab)) 0 ''T1'' status_zero
       = \<lparr>LastUpdated = ''T1'',
          Errors = Some [''certificate for prod/web is not valid for host b.example.com''],
          Warnings = None,
          Certificates = Some [(newIngressInfo ''prod'' (ingress_ex hosts_ab) (tls_ex hosts_ab))
            \<lparr>x509 := Some (cert_ex 8640000),
             CertificateInfo := Some ((newCertInfo (cert_ex 8640000) 100)\<lparr>IsValid := False\<rparr>)\<rparr>]\<rparr>
   \<and> handler_status
        (refresh (lib_ex 8640000) (config_ex (client_ex hosts_ab)) 0 ''T1'' status_zero) \<noteq> 200"
  by (simp add: far_ex miss_ex refresh_def cycle_ex handler_status_def len_def elems_def)

lemma sublist_msg_expired:
  "sublist (''expired on '' @ NotAfter ci) (msg_expired ns n ci)"
proof -
  have "msg_expired ns n ci =
      (''certificate '' @ ns @ ''/'' @ n @ '' ('' @ Join (DNSNames ci) '', '' @ '') '')
      @ (''expired on '' @ NotAfter ci) @ []"
    by (simp add: msg_expired_def)
  then show ?thesis by (simp only: sublist_appendI)
qed

lemma sublist_msg_will_expire:
  "sublist (''will expire in '' @ fmt_d (sint (DaysLeft ci)) @ '' days'') (msg_will_expire ns n ci)"
proof -
  have "msg_will_expire ns n ci =
      (''certificate '' @ ns @ ''/'' @ n @ '' ('' @ Join (DNSNames ci) '', '' @ '') '')
      @ (''will expire in '' @ fmt_d (sint (DaysLeft ci)) @ '' days'')
      @ ('' ('' @ NotAfter ci @ '').'')"
    by (simp add: msg_will_expire_def)
  then show ?thesis by (simp only: sublist_appendI)
qed

lemma sublist_msg_expired':
  "sublist (''expired on '' @ NotAfter' ci) (msg_expired' ns ci)"
proof -
  have "msg_expired' ns ci =
      (''certificate '' @ ns @ ''/'' @ SecretName' ci @ '' ('' @ Join (DNSNames' ci) '', '' @ '') '')
      @ (''expired on '' @ NotAfter' ci) @ []"
    by (simp add: msg_expired'_def)
  then show ?thesis by (simp only: sublist_appendI)
qed

lemma sublist_msg_will_expire':
  "sublist (''will expire in '' @ fmt_d (sint (DaysLeft' ci)) @ '' days'') (msg_will_expire' ns ci)"
proof -
  have "msg_will_expire' ns ci =
      (''certificate '' @ ns @ ''/'' @ SecretName' ci @ '' ('' @ Join (DNSNames' ci) '', '' @ '') '')
      @ (''will expire in '' @ fmt_d (sint (DaysLeft' ci)) @ '' days'')
      @ ('' ('' @ NotAfter' ci @ '').'')"
    by (simp add: msg_will_expire'_def)
  then show ?thesis by (simp only: sublist_appendI)
qed

section \<open>The ladder of the expiry\<close>

lemma expiryLadder_at_most_one:
  "length (elems (fst (expiryLadder appConfig ns n dl (w, es, ci))))
     + length (elems (fst (snd (expiryLadder appConfig ns n dl (w, es, ci)))))
   \<le> length (elems w) + length (elems es) + 1"
  by (simp add: expiryLadder_def elems_append_slice)

lemma expiryLadder'_at_most_one:
  "length (elems (fst (expiryLadder' appConfig ns dl (w, es, ci))))
     + length (elems (fst (snd (expiryLadder' appConfig ns dl (w, es, ci)))))
   \<le> length (elems w) + length (elems es) + 1"
  by (simp add: expiryLadder'_def elems_append_slice)

section \<open>The ladder of the expiry in the loops\<close>

lemma newCertInfo_fields:
  "IsValid (newCertInfo x dl)" "DaysLeft (newCertInfo x dl) = dl"
  "NotAfter (newCertInfo x dl) = String (x509_NotAfter x)"
  "DNSNames (newCertInfo x dl) = x509_DNSNames x"
  by (simp_all add: newCertInfo_def Let_def)

lemma newCertInfo'_fields:
  "IsValid' (newCertInfo' ns secret x dl)" "DaysLeft' (newCertInfo' ns secret x dl) = dl"
  "NotAfter' (newCertInfo' ns secret x dl) = String (x509_NotAfter x)"
  "DNSNames' (newCertInfo' ns secret x dl) = x509_DNSNames x"
  "SecretName' (newCertInfo' ns secret x dl) = secret_Name secret"
  by (simp_all add: newCertInfo'_def)

lemma tlsSpecStep_ladder:
  fixes lib appConfig now ns ingress t x
  defines "d \<equiv> sint (daysLeft x now)"
      and "crit \<equiv> sint (CritDaysLeft appConfig)"
      and "warn \<equiv> sint (WarnDaysLeft appConfig)"
      and "ci \<equiv> newCertInfo x (daysLeft x now)"
      and "n \<equiv> ingress_Name ingress"
      and "hm \<equiv> map (msg_host ns (ingress_Name ingress))
                   (filter (\<lambda>h. \<not> VerifyHostname lib x h) (tls_Hosts t))"
      and "ok \<equiv> \<forall>h \<in> set (tls_Hosts t). VerifyHostname lib x h"
      and "rec \<equiv> \<lambda>c. (newIngressInfo ns ingress t)\<lparr>x509 := Some x, CertificateInfo := Some c\<rparr>"
  assumes parsed: "getx509Data lib (KubeClient appConfig) (newIngressInfo ns ingress t) = Inr x"
  shows "(d \<le> 0 \<longrightarrow>
            tlsSpecStep lib appConfig now ns ingress t (l, w, es) =
              (append_slice l (rec (ci\<lparr>IsValid := False\<rparr>)), w,
               foldl append_slice (append_slice es (msg_expired ns n ci)) hm))
       \<and> (0 < d \<and> d \<le> crit \<longrightarrow>
            tlsSpecStep lib appConfig now ns ingress t (l, w, es) =
              (append_slice l (rec (ci\<lparr>IsValid := ok\<rparr>)), w,
               foldl append_slice (append_slice es (msg_will_expire ns n ci)) hm))
       \<and> (0 < d \<and> crit < d \<and> d < warn \<longrightarrow>
            tlsSpecStep lib appConfig now ns ingress t (l, w, es) =
              (append_slice l (rec (ci\<lparr>IsValid := ok\<rparr>)),
               append_slice w (msg_will_expire ns n ci),
               foldl append_slice es hm))
       \<and> (0 < d \<and> crit < d \<and> warn \<le> d \<longrightarrow>
            tlsSpecStep lib appConfig now ns ingress t (l, w, es) =
              (append_slice l (rec (ci\<lparr>IsValid := ok\<rparr>)), w,
               foldl append_slice es hm))"
proof (intro conjI impI)
  assume "d \<le> 0"
  then have "expiryLadder appConfig ns (ingress_Name ingress) (daysLeft x now) (w, es, ci)
      = (w, append_slice es (msg_expired ns n ci), ci\<lparr>IsValid := False\<rparr>)"
    by (simp add: expiryLadder_def d_def n_def)
  from tlsSpecStep_parsed [OF parsed this [unfolded ci_def]]
  show "tlsSpecStep lib appConfig now ns ingress t (l, w, es) =
              (append_slice l (rec (ci\<lparr>IsValid := False\<rparr>)), w,
               foldl append_slice (append_slice es (msg_expired ns n ci)) hm)"
    by (simp add: ci_def rec_def hm_def)
next
  assume "0 < d \<and> d \<le> crit"
  then have "expiryLadder appConfig ns (ingress_Name ingress) (daysLeft x now) (w, es, ci)
      = (w, append_slice es (msg_will_expire ns n ci), ci)"
    by (simp add: expiryLadder_def d_def n_def crit_def)
  from tlsSpecStep_parsed [OF parsed this [unfolded ci_def]]
  show "tlsSpecStep lib appConfig now ns ingress t (l, w, es) =
              (append_slice l (rec (ci\<lparr>IsValid := ok\<rparr>)), w,
               foldl append_slice (append_slice es (msg_will_expire ns n ci)) hm)"
    by (simp add: ci_def rec_def hm_def ok_def newCertInfo_fields)
next
  assume "0 < d \<and> crit < d \<and> d < warn"
  then have "expiryLadder appConfig ns (ingress_Name ingress) (daysLeft x now) (w, es, ci)
      = (append_slice w (msg_will_expire ns n ci), es, ci)"
    by (simp add: expiryLadder_def d_def n_def crit_def warn_def)
  from tlsSpecStep_parsed [OF parsed this [unfolded ci_def]]
  show "tlsSpecStep lib appConfig now ns ingress t (l, w, es) =
              (append_slice l (rec (ci\<lparr>IsValid := ok\<rparr>)),
               append_slice w (msg_will_expire ns n ci),
               foldl append_slice es hm)"
    by (simp add: ci_def rec_def hm_def ok_def newCertInfo_fields)
next
  assume "0 < d \<and> crit < d \<and> warn \<le> d"
  then have "expiryLadder appConfig ns (ingress_Name ingress) (daysLeft x now) (w, es, ci)
      = (w, es, ci)"
    by (simp add: expiryLadder_def d_def n_def crit_def warn_def)
  from tlsSpecStep_parsed [OF parsed this [unfolded ci_def]]
  show "tlsSpecStep lib appConfig now ns ingress t (l, w, es) =
              (append_slice l (rec (ci\<lparr>IsValid := ok\<rparr>)), w,
               foldl append_slice es hm)"
    by (simp add: ci_def rec_def hm_def ok_def newCertInfo_fields)
qed

lemma secretStep_parsed:
  assumes "secret_Type secret = ''kubernetes.io/tls''"
      and "secret_Labels secret ''kubed.appscode.com/origin.namespace'' = None
           \<or> secret_Labels secret ''kubed.appscode.com/origin.namespace'' = Some ns"
      and "getx509Data' lib secret = Inr x"
      and "expiryLadder' appConfig ns (daysLeft x now)
             (w, es, newCertInfo' ns secret x (daysLeft x now)) = (w1, es1, ci1)"
  shows "secretStep lib appConfig now ns secret (l, w, es) = (append_slice l ci1, w1, es1)"
  using assms by (auto simp: secretStep_def Let_def newCertInfo'_def)

lemma secretStep_ladder:
  fixes lib appConfig now ns secret x
  defines "d \<equiv> sint (daysLeft x now)"
      and "crit \<equiv> sint (CritDaysLeft appConfig)"
      and "warn \<equiv> sint (WarnDaysLeft appConfig)"
      and "ci \<equiv> newCertInfo' ns secret x (daysLeft x now)"
  assumes tls: "secret_Type secret = ''kubernetes.io/tls''"
      and lab: "secret_Labels secret ''kubed.appscode.com/origin.namespace'' = None
           \<or> secret_Labels secret ''kubed.appscode.com/origin.namespace'' = Some ns"
      and parsed: "getx509Data' lib secret = Inr x"
  shows "(d \<le> 0 \<longrightarrow>
            secretStep lib appConfig now ns secret (l, w, es) =
              (append_slice l (ci\<lparr>IsValid' := False\<rparr>), w,
               append_slice es (msg_expired' ns ci)))
       \<and> (0 < d \<and> d \<le> crit \<longrightarrow>
            secretStep lib appConfig now ns secret (l, w, es) =
              (append_slice l ci, w, append_slice es (msg_will_expire' ns ci)))
       \<and> (0 < d \<and> crit < d \<and> d < warn \<longrightarrow>
            secretStep lib appConfig now ns secret (l, w, es) =
              (append_slice l ci, append_slice w (msg_will_expire' ns ci), es))
       \<and> (0 < d \<and> crit < d \<and> warn \<le> d \<longrightarrow>
            secretStep lib appConfig now ns secret (l, w, es) = (append_slice l ci, w, es))"
proof (intro conjI impI)
  assume "d \<le> 0"
  then have "expiryLadder' appConfig ns (daysLeft x now) (w, es, ci)
      = (w, append_slice es (msg_expired' ns ci), ci\<lparr>IsValid' := False\<rparr>)"
    by (simp add: expiryLadder'_def d_def)
  from secretStep_parsed [OF tls lab parsed this [unfolded ci_def]]
  show "secretStep lib appConfig now ns secret (l, w, es) =
              (append_slice l (ci\<lparr>IsValid' := False\<rparr>), w,
               append_slice es (msg_expired' ns ci))"
    by (simp add: ci_def)
next
  assume "0 < d \<and> d \<le> crit"
  then have "expiryLadder' appConfig ns (daysLeft x now) (w, es, ci)
      = (w, append_slice es (msg_will_expire' ns ci), ci)"
    by (simp add: expiryLadder'_def d_def crit_def)
  from secretStep_parsed [OF tls lab parsed this [unfolded ci_def]]
  show "secretStep lib appConfig now ns secret (l, w, es) =
              (append_slice l ci, w, append_slice es (msg_will_expire' ns ci))"
    by (simp add: ci_def)
next
  assume "0 < d \<and> crit < d \<and> d < warn"
  then have "expiryLadder' appConfig ns (daysLeft x now) (w, es, ci)
      = (append_slice w (msg_will_expire' ns ci), es, ci)"
    by (simp add: expiryLadder'_def d_def crit_def warn_def)
  from secretStep_parsed [OF tls lab parsed this [unfolded ci_def]]
  show "secretStep lib appConfig now ns secret (l, w, es) =
              (append_slice l ci, append_slice w (msg_will_expire' ns ci), es)"
    by (simp add: ci_def)
next
  assume "0 < d \<and> crit < d \<and> warn \<le> d"
  then have "expiryLadder' appConfig ns (daysLeft x now) (w, es, ci) = (w, es, ci)"
    by (simp add: expiryLadder'_def d_def crit_def warn_def)
  from secretStep_parsed [OF tls lab parsed this [unfolded ci_def]]
  show "secretStep lib appConfig now ns secret (l, w, es) = (append_slice l ci, w, es)"
    by (simp add: ci_def)
qed

lemma expiryLadder_warnings_prefix:
  "expiryLadder appConfig ns n dl (w, e, ci) = (w', e', ci') \<Longrightarrow> prefix (elems w) (elems w')"
  by (auto simp: expiryLadder_def elems_append_slice split: if_splits)

lemma tlsSpecStep_warnings_prefix:
  assumes "tlsSpecStep lib appConfig now ns ingress t (l, w, e) = (l', w', e')"
  shows "prefix (elems w) (elems w')"
proof (cases "getx509Data lib (KubeClient appConfig) (newIngressInfo ns ingress t)")
  case (Inl err)
  with assms show ?thesis by (auto simp: tlsSpecStep_def)
next
  case (Inr x)
  obtain w1 e1 ci1 where lad: "expiryLadder appConfig ns (ingress_Name ingress) (daysLeft x now)
      (w, e, newCertInfo x (daysLeft x now)) = (w1, e1, ci1)"
    by (metis prod_cases3)
  from assms tlsSpecStep_parsed [OF Inr lad, of l] have "w' = w1" by simp
  with expiryLadder_warnings_prefix [OF lad] show ?thesis by simp
qed

lemma tlsSpecStep_keeps_warning:
  assumes "m \<in> set (elems (fst (snd acc)))"
  shows "m \<in> set (elems (fst (snd (tlsSpecStep lib appConfig now ns ingress t acc))))"
proof -
  obtain l w es where acc: "acc = (l, w, es)" by (metis prod_cases3)
  obtain l' w' es' where r: "tlsSpecStep lib appConfig now ns ingress t (l, w, es) = (l', w', es')"
    by (metis prod_cases3)
  from tlsSpecStep_warnings_prefix [OF r] have "set (elems w) \<subseteq> set (elems w')"
    by (rule set_mono_prefix)
  with assms acc r show ?thesis by auto
qed

lemma secretStep_lists_prefix:
  assumes "secretStep lib appConfig now ns secret (l, w, e) = (l', w', e')"
  shows "prefix (elems w) (elems w') \<and> prefix (elems e) (elems e')"
  using assms
  by (auto simp: secretStep_def Let_def expiryLadder'_def elems_append_slice
      split: if_splits sum.splits option.splits)

lemma secretStep_keeps_error:
  assumes "m \<in> set (elems (snd (snd acc)))"
  shows "m \<in> set (elems (snd (snd (secretStep lib appConfig now ns secret acc))))"
proof -
  obtain l w es where acc: "acc = (l, w, es)" by (metis prod_cases3)
  obtain l' w' es' where r: "secretStep lib appConfig now ns secret (l, w, es) = (l', w', es')"
    by (metis prod_cases3)
  from secretStep_lists_prefix [OF r] have "prefix (elems es) (elems es')" by simp
  then have "set (elems es) \<subseteq> set (elems es')" by (rule set_mono_prefix)
  with assms acc r show ?thesis by auto
qed

lemma secretStep_keeps_warning:
  assumes "m \<in> set (elems (fst (snd acc)))"
  shows "m \<in> set (elems (fst (snd (secretStep lib appConfig now ns secret acc))))"
proof -
  obtain l w es where acc: "acc = (l, w, es)" by (metis prod_cases3)
  obtain l' w' es' where r: "secretStep lib appConfig now ns secret (l, w, es) = (l', w', es')"
    by (metis prod_cases3)
  from secretStep_lists_prefix [OF r] have "prefix (elems w) (elems w')" by simp
  then have "set (elems w) \<subseteq> set (elems w')" by (rule set_mono_prefix)
  with assms acc r show ?thesis by auto
qed

lemma secrets_fold_reaches:
  assumes ns: "ns \<in> set namespaces"
      and sec: "secret \<in> set (fst (Secrets_List (KubeClient appConfig) ns))"
      and hit: "\<And>acc. P (secretStep lib appConfig now ns secret acc)"
      and keep: "\<And>ns' secret' acc. P acc \<Longrightarrow> P (secretStep lib appConfig now ns' secret' acc)"
  shows "P (fold (namespaceStep' lib appConfig now None) namespaces acc0)"
proof -
  have keep_n: "P (namespaceStep' lib appConfig now None ns' acc)" if "P acc" for ns' acc
  proof -
    have "P (fold (secretStep lib appConfig now ns') secs acc)" for secs
      by (rule fold_preserves [of P]) (erule keep, rule that)
    then show ?thesis by (simp add: namespaceStep'_def split: prod.splits)
  qed
  have hit_n: "P (namespaceStep' lib appConfig now None ns acc)" for acc
  proof -
    obtain secs lerr where l: "Secrets_List (KubeClient appConfig) ns = (secs, lerr)"
      by (metis surj_pair)
    with sec have "secret \<in> set secs" by simp
    then have "P (fold (secretStep lib appConfig now ns) secs acc)"
      by (rule fold_reaches [of secret _ P]) (rule hit, erule keep)
    with l show ?thesis by (simp add: namespaceStep'_def)
  qed
  show ?thesis
    by (rule fold_reaches [of ns _ P]) (rule ns, rule hit_n, erule keep_n)
qed

lemma getCertificateList_elems:
  assumes "Namespaces_List (KubeClient appConfig) = Inr namespaces"
  shows "elems (fst (snd (getCertificateList lib appConfig now)))
           = elems (fst (snd (fold (namespaceStep' lib appConfig now None) namespaces
                                (None, None, None))))
         \<and> elems (snd (snd (getCertificateList lib appConfig now)))
           = elems (snd (snd (fold (namespaceStep' lib appConfig now None) namespaces
                                (None, None, None))))"
  using assms
  by (simp add: getCertificateList_def Let_def make_slice0_def elems_def split: prod.splits)

lemma getCertificateList_reaches_error:
  assumes "Namespaces_List (KubeClient appConfig) = Inr namespaces"
      and "ns \<in> set namespaces"
      and "secret \<in> set (fst (Secrets_List (KubeClient appConfig) ns))"
      and "\<And>acc. m \<in> set (elems (snd (snd (secretStep lib appConfig now ns secret acc))))"
  shows "m \<in> set (elems (snd (snd (getCertificateList lib appConfig now))))"
proof -
  have "m \<in> set (elems (snd (snd (fold (namespaceStep' lib appConfig now None) namespaces
                                (None, None, None)))))"
    by (rule secrets_fold_reaches [where P = "\<lambda>acc. m \<in> set (elems (snd (snd acc)))"
          and ns = ns and secret = secret])
       (use assms in \<open>simp_all add: secretStep_keeps_error\<close>)
  then show ?thesis by (simp add: getCertificateList_elems [OF assms(1)])
qed

lemma getCertificateList_reaches_warning:
  assumes "Namespaces_List (KubeClient appConfig) = Inr namespaces"
      and "ns \<in> set namespaces"
      and "secret \<in> set (fst (Secrets_List (KubeClient appConfig) ns))"
      and "\<And>acc. m \<in> set (elems (fst (snd (secretStep lib appConfig now ns secret acc))))"
  shows "m \<in> set (elems (fst (snd (getCertificateList lib appConfig now))))"
proof -
  have "m \<in> set (elems (fst (snd (fold (namespaceStep' lib appConfig now None) namespaces
                                (None, None, None)))))"
    by (rule secrets_fold_reaches [where P = "\<lambda>acc. m \<in> set (elems (fst (snd acc)))"
          and ns = ns and secret = secret])
       (use assms in \<open>simp_all add: secretStep_keeps_warning\<close>)
  then show ?thesis by (simp add: getCertificateList_elems [OF assms(1)])
qed

lemma getIngresses_reaches_error:
  assumes "Namespaces_List (KubeClient appConfig) = Inr namespaces"
      and "ns \<in> set namespaces"
      and "ingress \<in> set (fst (Ingresses_List (KubeClient appConfig) ns))"
      and "t \<in> set (ingress_Spec_TLS ingress)"
      and "\<And>acc. m \<in> set (elems (snd (snd (tlsSpecStep lib appConfig now ns ingress t acc))))"
  shows "m \<in> set (elems (snd (snd (getIngresses lib appConfig now))))"
  by (rule getIngresses_reaches [where P = "\<lambda>acc. m \<in> set (elems (snd (snd acc)))"
        and ns = ns and ingress = ingress and t = t and namespaces = namespaces])
     (use assms in \<open>simp_all add: tlsSpecStep_keeps_error\<close>)

lemma getIngresses_reaches_warning:
  assumes "Namespaces_List (KubeClient appConfig) = Inr namespaces"
      and "ns \<in> set namespaces"
      and "ingress \<in> set (fst (Ingresses_List (KubeClient appConfig) ns))"
      and "t \<in> set (ingress_Spec_TLS ingress)"
      and "\<And>acc. m \<in> set (elems (fst (snd (tlsSpecStep lib appConfig now ns ingress t acc))))"
  shows "m \<in> set (elems (fst (snd (getIngresses lib appConfig now))))"
  by (rule getIngresses_reaches [where P = "\<lambda>acc. m \<in> set (elems (fst (snd acc)))"
        and ns = ns and ingress = ingress and t = t and namespaces = namespaces])
     (use assms in \<open>simp_all add: tlsSpecStep_keeps_warning\<close>)

lemma getIngresses_ladder:
  fixes lib appConfig now ns ingress t x
  defines "d \<equiv> sint (daysLeft x now)"
      and "crit \<equiv> sint (CritDaysLeft appConfig)"
      and "warn \<equiv> sint (WarnDaysLeft appConfig)"
      and "ci \<equiv> newCertInfo x (daysLeft x now)"
      and "n \<equiv> ingress_Name ingress"
  assumes parsed: "getx509Data lib (KubeClient appConfig) (newIngressInfo ns ingress t) = Inr x"
      and nss: "Namespaces_List (KubeClient appConfig) = Inr namespaces"
      and ns: "ns \<in> set namespaces"
      and ing: "ingress \<in> set (fst (Ingresses_List (KubeClient appConfig) ns))"
      and t: "t \<in> set (ingress_Spec_TLS ingress)"
  shows "(d \<le> 0 \<longrightarrow>
            msg_expired ns n ci \<in> set (elems (snd (snd (getIngresses lib appConfig now)))))
       \<and> (0 < d \<and> d \<le> crit \<longrightarrow>
            msg_will_expire ns n ci \<in> set (elems (snd (snd (getIngresses lib appConfig now)))))
       \<and> (0 < d \<and> crit < d \<and> d < warn \<longrightarrow>
            msg_will_expire ns n ci \<in> set (elems (fst (snd (getIngresses lib appConfig now)))))"
proof (intro conjI impI)
  note lad = tlsSpecStep_ladder [OF parsed, where now = now, folded d_def crit_def warn_def ci_def n_def]
  {
    assume a: "d \<le> 0"
    have "msg_expired ns n ci
            \<in> set (elems (snd (snd (tlsSpecStep lib appConfig now ns ingress t acc))))" for acc
      using a lad by (cases acc) (simp add: elems_foldl_append_slice elems_append_slice)
    then show "msg_expired ns n ci \<in> set (elems (snd (snd (getIngresses lib appConfig now))))"
      by (rule getIngresses_reaches_error [OF nss ns ing t])
  }
  {
    assume a: "0 < d \<and> d \<le> crit"
    have "msg_will_expire ns n ci
            \<in> set (elems (snd (snd (tlsSpecStep lib appConfig now ns ingress t acc))))" for acc
      using a lad by (cases acc) (simp add: elems_foldl_append_slice elems_append_slice)
    then show "msg_will_expire ns n ci
                 \<in> set (elems (snd (snd (getIngresses lib appConfig now))))"
      by (rule getIngresses_reaches_error [OF nss ns ing t])
  }
  {
    assume a: "0 < d \<and> crit < d \<and> d < warn"
    have "msg_will_expire ns n ci
            \<in> set (elems (fst (snd (tlsSpecStep lib appConfig now ns ingress t acc))))" for acc
      using a lad by (cases acc) (simp add: elems_append_slice)
    then show "msg_will_expire ns n ci
                 \<in> set (elems (fst (snd (getIngresses lib appConfig now))))"
      by (rule getIngresses_reaches_warning [OF nss ns ing t])
  }
qed

lemma getCertificateList_ladder:
  fixes lib appConfig now ns secret x
  defines "d \<equiv> sint (daysLeft x now)"
      and "crit \<equiv> sint (CritDaysLeft appConfig)"
      and "warn \<equiv> sint (WarnDaysLeft appConfig)"
      and "ci \<equiv> newCertInfo' ns secret x (daysLeft x now)"
  assumes tls: "secret_Type secret = ''kubernetes.io/tls''"
      and lab: "secret_Labels secret ''kubed.appscode.com/origin.namespace'' = None
           \<or> secret_Labels secret ''kubed.appscode.com/origin.namespace'' = Some ns"
      and parsed: "getx509Data' lib secret = Inr x"
      and nss: "Namespaces_List (KubeClient appConfig) = Inr namespaces"
      and ns: "ns \<in> set namespaces"
      and sec: "secret \<in> set (fst (Secrets_List (KubeClient appConfig) ns))"
  shows "(d \<le> 0 \<longrightarrow>
            msg_expired' ns ci \<in> set (elems (snd (snd (getCertificateList lib appConfig now)))))
       \<and> (0 < d \<and> d \<le> crit \<longrightarrow>
            msg_will_expire' ns ci
              \<in> set (elems (snd (snd (getCertificateList lib appConfig now)))))
       \<and> (0 < d \<and> crit < d \<and> d < warn \<longrightarrow>
            msg_will_expire' ns ci
              \<in> set (elems (fst (snd (getCertificateList lib appConfig now)))))"
proof (intro conjI impI)
  note lad = secretStep_ladder [OF tls lab parsed, where now = now and appConfig = appConfig, folded d_def crit_def warn_def ci_def]
  {
    assume a: "d \<le> 0"
    have "msg_expired' ns ci
            \<in> set (elems (snd (snd (secretStep lib appConfig now ns secret acc))))" for acc
      using a lad by (cases acc) (simp add: elems_append_slice)
    then show "msg_expired' ns ci
                 \<in> set (elems (snd (snd (getCertificateList lib appConfig now))))"
      by (rule getCertificateList_reaches_error [OF nss ns sec])
  }
  {
    assume a: "0 < d \<and> d \<le> crit"
    have "msg_will_expire' ns ci
            \<in> set (elems (snd (snd (secretStep lib appConfig now ns secret acc))))" for acc
      using a lad by (cases acc) (simp add: elems_append_slice)
    then show "msg_will_expire' ns ci
                 \<in> set (elems (snd (snd (getCertificateList lib appConfig now))))"
      by (rule getCertificateList_reaches_error [OF nss ns sec])
  }
  {
    assume a: "0 < d \<and> crit < d \<and> d < warn"
    have "msg_will_expire' ns ci
            \<in> set (elems (fst (snd (secretStep lib appConfig now ns secret acc))))" for acc
      using a lad by (cases acc) (simp add: elems_append_slice)
    then show "msg_will_expire' ns ci
                 \<in> set (elems (fst (snd (getCertificateList lib appConfig now))))"
      by (rule getCertificateList_reaches_warning [OF nss ns sec])
  }
qed

lemma tlsSpecStep_at_most_one:
  assumes "getx509Data lib (KubeClient appConfig) (newIngressInfo ns ingress t) = Inr x"
  shows "length (elems (fst (snd (tlsSpecStep lib appConfig now ns ingress t (l, w, es)))))
           + length (elems (snd (snd (tlsSpecStep lib appConfig now ns ingress t (l, w, es)))))
         \<le> length (elems w) + length (elems es) + 1
             + length (filter (\<lambda>h. \<not> VerifyHostname lib x h) (tls_Hosts t))"
proof -
  obtain w1 e1 ci1 where lad: "expiryLadder appConfig ns (ingress_Name ingress) (daysLeft x now)
      (w, es, newCertInfo x (daysLeft x now)) = (w1, e1, ci1)"
    by (metis prod_cases3)
  from expiryLadder_at_most_one
    [of appConfig ns "ingress_Name ingress" "daysLeft x now" w es "newCertInfo x (daysLeft x now)"]
  have "length (elems w1) + length (elems e1) \<le> length (elems w) + length (elems es) + 1"
    by (simp add: lad)
  then show ?thesis
    by (simp add: tlsSpecStep_parsed [OF assms lad] elems_foldl_append_slice)
qed

lemma secretStep_at_most_one:
  assumes "secret_Type secret = ''kubernetes.io/tls''"
      and "secret_Labels secret ''kubed.appscode.com/origin.namespace'' = None
           \<or> secret_Labels secret ''kubed.appscode.com/origin.namespace'' = Some ns"
      and "getx509Data' lib secret = Inr x"
  shows "length (elems (fst (snd (secretStep lib appConfig now ns secret (l, w, es)))))
           + length (elems (snd (snd (secretStep lib appConfig now ns secret (l, w, es)))))
         \<le> length (elems w) + length (elems es) + 1"
proof -
  obtain w1 e1 ci1 where lad: "expiryLadder' appConfig ns (daysLeft x now)
      (w, es, newCertInfo' ns secret x (daysLeft x now)) = (w1, e1, ci1)"
    by (metis prod_cases3)
  from expiryLadder'_at_most_one
    [of appConfig ns "daysLeft x now" w es "newCertInfo' ns secret x (daysLeft x now)"]
  have "length (elems w1) + length (elems e1) \<le> length (elems w) + length (elems es) + 1"
    by (simp add: lad)
  then show ?thesis
    by (simp add: secretStep_parsed [OF assms lad])
qed

lemma spec_severity_cases:
  "(d \<le> 0 \<longrightarrow> spec_severity crit warn d = CRIT)
   \<and> (0 < d \<and> d \<le> crit \<longrightarrow> spec_severity crit warn d = CRIT)
   \<and> (0 < d \<and> crit < d \<and> d < warn \<longrightarrow> spec_severity crit warn d = WARN)
   \<and> (0 < d \<and> crit < d \<and> warn \<le> d \<longrightarrow> spec_severity crit warn d = OK)"
  by (simp add: spec_severity_def)

lemma sublist_ladder_msgs:
  "sublist (''expired on '' @ String (x509_NotAfter x)) (msg_expired ns n (newCertInfo x dl))"
  "sublist (''will expire in '' @ fmt_d (sint dl) @ '' days'')
     (msg_will_expire ns n (newCertInfo x dl))"
  "sublist (''expired on '' @ String (x509_NotAfter x))
     (msg_expired' ns (newCertInfo' ns secret x dl))"
  "sublist (''will expire in '' @ fmt_d (sint dl) @ '' days'')
     (msg_will_expire' ns (newCertInfo' ns secret x dl))"
  using sublist_msg_expired [of "newCertInfo x dl" ns n]
    sublist_msg_will_expire [of "newCertInfo x dl" ns n]
    sublist_msg_expired' [of "newCertInfo' ns secret x dl" ns]
    sublist_msg_will_expire' [of "newCertInfo' ns secret x dl" ns]
  by (simp_all add: newCertInfo_fields newCertInfo'_fields)

lemma getIngresses_ladder_conj:
  assumes "getx509Data lib (KubeClient appConfig) (newIngressInfo ns ingress t) = Inr x"
      and "Namespaces_List (KubeClient appConfig) = Inr namespaces \<and> ns \<in> set namespaces
           \<and> ingress \<in> set (fst (Ingresses_List (KubeClient appConfig) ns))
           \<and> t \<in> set (ingress_Spec_TLS ingress)"
  shows "(sint (daysLeft x now) \<le> 0 \<longrightarrow>
            msg_expired ns (ingress_Name ingress) (newCertInfo x (daysLeft x now))
              \<in> set (elems (snd (snd (getIngresses lib appConfig now)))))
       \<and> (0 < sint (daysLeft x now) \<and> sint (daysLeft x now) \<le> sint (CritDaysLeft appConfig) \<longrightarrow>
            msg_will_expire ns (ingress_Name ingress) (newCertInfo x (daysLeft x now))
              \<in> set (elems (snd (snd (getIngresses lib appConfig now)))))
       \<and> (0 < sint (daysLeft x now) \<and> sint (CritDaysLeft appConfig) < sint (daysLeft x now)
            \<and> sint (daysLeft x now) < sint (WarnDaysLeft appConfig) \<longrightarrow>
            msg_will_expire ns (ingress_Name ingress) (newCertInfo x (daysLeft x now))
              \<in> set (elems (fst (snd (getIngresses lib appConfig now)))))"
  using assms(2) getIngresses_ladder [OF assms(1), where now = now and namespaces = namespaces]
  by blast

lemma getCertificateList_ladder_conj:
  assumes "secret_Type secret = ''kubernetes.io/tls''
        \<and> (secret_Labels secret ''kubed.appscode.com/origin.namespace'' = None
           \<or> secret_Labels secret ''kubed.appscode.com/origin.namespace'' = Some ns)
        \<and> getx509Data' lib secret = Inr x"
      and "Namespaces_List (KubeClient appConfig) = Inr namespaces \<and> ns \<in> set namespaces
           \<and> secret \<in> set (fst (Secrets_List (KubeClient appConfig) ns))"
  shows "(sint (daysLeft x now) \<le> 0 \<longrightarrow>
            msg_expired' ns (newCertInfo' ns secret x (daysLeft x now))
              \<in> set (elems (snd (snd (getCertificateList lib appConfig now)))))
       \<and> (0 < sint (daysLeft x now) \<and> sint (daysLeft x now) \<le> sint (CritDaysLeft appConfig) \<longrightarrow>
            msg_will_expire' ns (newCertInfo' ns secret x (daysLeft x now))
              \<in> set (elems (snd (snd (getCertificateList lib appConfig now)))))
       \<and> (0 < sint (daysLeft x now) \<and> sint (CritDaysLeft appConfig) < sint (daysLeft x now)
            \<and> sint (daysLeft x now) < sint (WarnDaysLeft appConfig) \<longrightarrow>
            msg_will_expire' ns (newCertInfo' ns secret x (daysLeft x now))
              \<in> set (elems (fst (snd (getCertificateList lib appConfig now)))))"
proof -
  from assms(1) have a: "secret_Type secret = ''kubernetes.io/tls''"
    and b: "secret_Labels secret ''kubed.appscode.com/origin.namespace'' = None
           \<or> secret_Labels secret ''kubed.appscode.com/origin.namespace'' = Some ns"
    and c: "getx509Data' lib secret = Inr x"
    by simp_all
  from assms(2) getCertificateList_ladder
    [OF a b c, where now = now and namespaces = namespaces and appConfig = appConfig]
  show ?thesis by blast
qed

lemma secretStep_ladder_conj:
  assumes "secret_Type secret = ''kubernetes.io/tls''
        \<and> (secret_Labels secret ''kubed.appscode.com/origin.namespace'' = None
           \<or> secret_Labels secret ''kubed.appscode.com/origin.namespace'' = Some ns)
        \<and> getx509Data' lib secret = Inr x"
  shows "(sint (daysLeft x now) \<le> 0 \<longrightarrow>
            secretStep lib appConfig now ns secret (l, w, es) =
              (append_slice l ((newCertInfo' ns secret x (daysLeft x now))\<lparr>IsValid' := False\<rparr>), w,
               append_slice es (msg_expired' ns (newCertInfo' ns secret x (daysLeft x now)))))
       \<and> (0 < sint (daysLeft x now) \<and> sint (daysLeft x now) \<le> sint (CritDaysLeft appConfig) \<longrightarrow>
            secretStep lib appConfig now ns secret (l, w, es) =
              (append_slice l (newCertInfo' ns secret x (daysLeft x now)), w,
               append_slice es (msg_will_expire' ns (newCertInfo' ns secret x (daysLeft x now)))))
       \<and> (0 < sint (daysLeft x now) \<and> sint (CritDaysLeft appConfig) < sint (daysLeft x now)
            \<and> sint (daysLeft x now) < sint (WarnDaysLeft appConfig) \<longrightarrow>
            secretStep lib appConfig now ns secret (l, w, es) =
              (append_slice l (newCertInfo' ns secret x (daysLeft x now)),
               append_slice w (msg_will_expire' ns (newCertInfo' ns secret x (daysLeft x now))), es))
       \<and> (0 < sint (daysLeft x now) \<and> sint (CritDaysLeft appConfig) < sint (daysLeft x now)
            \<and> sint (WarnDaysLeft appConfig) \<le> sint (daysLeft x now) \<longrightarrow>
            secretStep lib appConfig now ns secret (l, w, es) =
              (append_slice l (newCertInfo' ns secret x (daysLeft x now)), w, es))"
proof -
  from assms have a: "secret_Type secret = ''kubernetes.io/tls''"
    and b: "secret_Labels secret ''kubed.appscode.com/origin.namespace'' = None
           \<or> secret_Labels secret ''kubed.appscode.com/origin.namespace'' = Some ns"
    and c: "getx509Data' lib secret = Inr x"
    by simp_all
  show ?thesis by (rule secretStep_ladder [OF a b c])
qed

lemma secretStep_at_most_one_conj:
  assumes "secret_Type secret = ''kubernetes.io/tls''
        \<and> (secret_Labels secret ''kubed.appscode.com/origin.namespace'' = None
           \<or> secret_Labels secret ''kubed.appscode.com/origin.namespace'' = Some ns)
        \<and> getx509Data' lib secret = Inr x"
  shows "length (elems (fst (snd (secretStep lib appConfig now ns secret (l, w, es)))))
           + length (elems (snd (snd (secretStep lib appConfig now ns secret (l, w, es)))))
         \<le> length (elems w) + length (elems es) + 1"
  using assms by (intro secretStep_at_most_one) simp_all

lemmas ladder_rules =
  spec_severity_cases [THEN conjunct1, rule_format]
  spec_severity_cases [THEN conjunct2, THEN conjunct1, rule_format]
  spec_severity_cases [THEN conjunct2, THEN conjunct2, THEN conjunct1, rule_format]
  spec_severity_cases [THEN conjunct2, THEN conjunct2, THEN conjunct2, rule_format]
  tlsSpecStep_ladder [THEN conjunct1, rule_format]
  tlsSpecStep_ladder [THEN conjunct2, THEN conjunct1, rule_format]
  tlsSpecStep_ladder [THEN conjunct2, THEN conjunct2, THEN conjunct1, rule_format]
  tlsSpecStep_ladder [THEN conjunct2, THEN conjunct2, THEN conjunct2, rule_format]
  secretStep_ladder_conj [THEN conjunct1, rule_format]
  secretStep_ladder_conj [THEN conjunct2, THEN conjunct1, rule_format]
  secretStep_ladder_conj [THEN conjunct2, THEN conjunct2, THEN conjunct1, rule_format]
  secretStep_ladder_conj [THEN conjunct2, THEN conjunct2, THEN conjunct2, rule_format]
  getIngresses_ladder_conj [THEN conjunct1, rule_format]
  getIngresses_ladder_conj [THEN conjunct2, THEN conjunct1, rule_format]
  getIngresses_ladder_conj [THEN conjunct2, THEN conjunct2, rule_format]
  getCertificateList_ladder_conj [THEN conjunct1, rule_format]
  getCertificateList_ladder_conj [THEN conjunct2, THEN conjunct1, rule_format]
  getCertificateList_ladder_conj [THEN conjunct2, THEN conjunct2, rule_format]
  tlsSpecStep_at_most_one secretStep_at_most_one_conj sublist_ladder_msgs

text \<open>
  C1. For a source whose certificate is parsed, with \<open>d\<close> its days left, the body of
  the loop takes the first branch that matches, in both variants: \<open>d \<le> 0\<close> appends
  the diagnostic \<open>expired on {notAfter}\<close> to the errors and the record has
  \<open>IsValid = False\<close>; else \<open>d \<le> CritDaysLeft\<close> appends \<open>will expire in {d} days\<close>
  to the errors; else \<open>d < WarnDaysLeft\<close> appends it to the warnings; else no
  diagnostic of the expiry is appended. The list that receives it is the one of the
  severity of the specification (errors for CRIT, warnings for WARN, none for OK). In
  the first variant the diagnostics of the hosts follow in the errors and \<open>IsValid\<close>
  also needs every host to be covered. The diagnostic is in the list that the cycle
  returns, and the expiry adds at most one entry for the source.
\<close>

theorem severity_ladder:
  fixes lib :: Crypto and appConfig :: ApplicationConfig and now :: int64
    and ns :: string and ingress :: Ingress and t :: IngressTLS and secret :: Secret
    and x :: x509_Certificate
  defines "d \<equiv> sint (daysLeft x now)"
      and "crit \<equiv> sint (CritDaysLeft appConfig)"
      and "warn \<equiv> sint (WarnDaysLeft appConfig)"
      and "ci \<equiv> newCertInfo x (daysLeft x now)"
      and "ci' \<equiv> newCertInfo' ns secret x (daysLeft x now)"
      and "n \<equiv> ingress_Name ingress"
      and "hm \<equiv> map (msg_host ns (ingress_Name ingress))
                   (filter (\<lambda>h. \<not> VerifyHostname lib x h) (tls_Hosts t))"
      and "ok \<equiv> \<forall>h \<in> set (tls_Hosts t). VerifyHostname lib x h"
      and "rec \<equiv> \<lambda>c. (newIngressInfo ns ingress t)\<lparr>x509 := Some x, CertificateInfo := Some c\<rparr>"
  shows
    "(getx509Data lib (KubeClient appConfig) (newIngressInfo ns ingress t) = Inr x \<longrightarrow>
        (d \<le> 0 \<longrightarrow>
           spec_severity crit warn d = CRIT
           \<and> tlsSpecStep lib appConfig now ns ingress t (l, w, es) =
               (append_slice l (rec (ci\<lparr>IsValid := False\<rparr>)), w,
                foldl append_slice (append_slice es (msg_expired ns n ci)) hm))
        \<and> (0 < d \<and> d \<le> crit \<longrightarrow>
           spec_severity crit warn d = CRIT
           \<and> tlsSpecStep lib appConfig now ns ingress t (l, w, es) =
               (append_slice l (rec (ci\<lparr>IsValid := ok\<rparr>)), w,
                foldl append_slice (append_slice es (msg_will_expire ns n ci)) hm))
        \<and> (0 < d \<and> crit < d \<and> d < warn \<longrightarrow>
           spec_severity crit warn d = WARN
           \<and> tlsSpecStep lib appConfig now ns ingress t (l, w, es) =
               (append_slice l (rec (ci\<lparr>IsValid := ok\<rparr>)),
                append_slice w (msg_will_expire ns n ci),
                foldl append_slice es hm))
        \<and> (0 < d \<and> crit < d \<and> warn \<le> d \<longrightarrow>
           spec_severity crit warn d = OK
           \<and> tlsSpecStep lib appConfig now ns ingress t (l, w, es) =
               (append_slice l (rec (ci\<lparr>IsValid := ok\<rparr>)), w,
                foldl append_slice es hm))
        \<and> length (elems (fst (snd (tlsSpecStep lib appConfig now ns ingress t (l, w, es)))))
             + length (elems (snd (snd (tlsSpecStep lib appConfig now ns ingress t (l, w, es)))))
           \<le> length (elems w) + length (elems es) + 1
               + length (filter (\<lambda>h. \<not> VerifyHostname lib x h) (tls_Hosts t))
        \<and> (Namespaces_List (KubeClient appConfig) = Inr namespaces \<and> ns \<in> set namespaces
           \<and> ingress \<in> set (fst (Ingresses_List (KubeClient appConfig) ns))
           \<and> t \<in> set (ingress_Spec_TLS ingress) \<longrightarrow>
             (d \<le> 0 \<longrightarrow>
                msg_expired ns n ci
                  \<in> set (elems (snd (snd (getIngresses lib appConfig now)))))
             \<and> (0 < d \<and> d \<le> crit \<longrightarrow>
                msg_will_expire ns n ci
                  \<in> set (elems (snd (snd (getIngresses lib appConfig now)))))
             \<and> (0 < d \<and> crit < d \<and> d < warn \<longrightarrow>
                msg_will_expire ns n ci
                  \<in> set (elems (fst (snd (getIngresses lib appConfig now)))))))
     \<and> (secret_Type secret = ''kubernetes.io/tls''
        \<and> (secret_Labels secret ''kubed.appscode.com/origin.namespace'' = None
           \<or> secret_Labels secret ''kubed.appscode.com/origin.namespace'' = Some ns)
        \<and> getx509Data' lib secret = Inr x \<longrightarrow>
        (d \<le> 0 \<longrightarrow>
           secretStep lib appConfig now ns secret (l', w, es) =
             (append_slice l' (ci'\<lparr>IsValid' := False\<rparr>), w,
              append_slice es (msg_expired' ns ci')))
        \<and> (0 < d \<and> d \<le> crit \<longrightarrow>
           secretStep lib appConfig now ns secret (l', w, es) =
             (append_slice l' ci', w, append_slice es (msg_will_expire' ns ci')))
        \<and> (0 < d \<and> crit < d \<and> d < warn \<longrightarrow>
           secretStep lib appConfig now ns secret (l', w, es) =
             (append_slice l' ci', append_slice w (msg_will_expire' ns ci'), es))
        \<and> (0 < d \<and> crit < d \<and> warn \<le> d \<longrightarrow>
           secretStep lib appConfig now ns secret (l', w, es) = (append_slice l' ci', w, es))
        \<and> length (elems (fst (snd (secretStep lib appConfig now ns secret (l', w, es)))))
             + length (elems (snd (snd (secretStep lib appConfig now ns secret (l', w, es)))))
           \<le> length (elems w) + length (elems es) + 1
        \<and> (Namespaces_List (KubeClient appConfig) = Inr namespaces \<and> ns \<in> set namespaces
           \<and> secret \<in> set (fst (Secrets_List (KubeClient appConfig) ns)) \<longrightarrow>
             (d \<le> 0 \<longrightarrow>
                msg_expired' ns ci'
                  \<in> set (elems (snd (snd (getCertificateList lib appConfig now)))))
             \<and> (0 < d \<and> d \<le> crit \<longrightarrow>
                msg_will_expire' ns ci'
                  \<in> set (elems (snd (snd (getCertificateList lib appConfig now)))))
             \<and> (0 < d \<and> crit < d \<and> d < warn \<longrightarrow>
                msg_will_expire' ns ci'
                  \<in> set (elems (fst (snd (getCertificateList lib appConfig now)))))))
     \<and> sublist (''expired on '' @ String (x509_NotAfter x)) (msg_expired ns n ci)
     \<and> sublist (''will expire in '' @ fmt_d d @ '' days'') (msg_will_expire ns n ci)
     \<and> sublist (''expired on '' @ String (x509_NotAfter x)) (msg_expired' ns ci')
     \<and> sublist (''will expire in '' @ fmt_d d @ '' days'') (msg_will_expire' ns ci')"
  unfolding d_def crit_def warn_def ci_def ci'_def n_def hm_def ok_def rec_def
  by (intro conjI impI; (rule ladder_rules; assumption))

lemma secret_parsed_ex:
  "secret_Type secret_ex = ''kubernetes.io/tls''
   \<and> (secret_Labels secret_ex ''kubed.appscode.com/origin.namespace'' = None
      \<or> secret_Labels secret_ex ''kubed.appscode.com/origin.namespace'' = Some ''prod'')
   \<and> getx509Data' (lib_ex t) secret_ex = Inr (cert_ex t)"
  by (simp add: getx509Data'_def lib_ex_def secret_ex_def)

lemma in_cluster_ex:
  "Namespaces_List (KubeClient (config_ex (client_ex hs))) = Inr [''prod'']
   \<and> ''prod'' \<in> set [''prod'']
   \<and> ingress_ex hs \<in> set (fst (Ingresses_List (KubeClient (config_ex (client_ex hs))) ''prod''))
   \<and> tls_ex hs \<in> set (ingress_Spec_TLS (ingress_ex hs))"
  "Namespaces_List (KubeClient (config_ex (client_ex hs))) = Inr [''prod'']
   \<and> ''prod'' \<in> set [''prod'']
   \<and> secret_ex \<in> set (fst (Secrets_List (KubeClient (config_ex (client_ex hs))) ''prod''))"
  by (simp_all add: config_ex_def client_ex_def ingress_ex_def)

lemma days_ex:
  "sint (daysLeft (cert_ex 0) 86400) = - 1"
  "sint (daysLeft (cert_ex 1728000) 0) = 20"
  by (simp_all add: daysLeft_def cert_ex_def quo_int64_def signed_divide_int_def)

lemma ladder_msgs_ex:
  "msg_expired ''prod'' (ingress_Name (ingress_ex hs)) (newCertInfo (cert_ex t) dl)
     = ''certificate prod/web (a.example.com) expired on NOTAFTER''"
  "sint dl = 20 \<Longrightarrow> msg_will_expire' ''prod'' (newCertInfo' ''prod'' secret_ex (cert_ex t) dl)
     = ''certificate prod/web-tls (a.example.com) will expire in 20 days (NOTAFTER).''"
  by (simp_all add: msg_expired_def msg_will_expire'_def newCertInfo_fields newCertInfo'_fields
      cert_ex_def ingress_ex_def secret_ex_def fmt_d_def digits.simps)

theorem severity_ladder_witness:
  "getx509Data (lib_ex 0) (KubeClient (config_ex (client_ex hosts_ab)))
     (newIngressInfo ''prod'' (ingress_ex hosts_ab) (tls_ex hosts_ab)) = Inr (cert_ex 0)
   \<and> sint (daysLeft (cert_ex 0) 86400) \<le> 0
   \<and> ''certificate prod/web (a.example.com) expired on NOTAFTER''
       \<in> set (elems (snd (snd (getIngresses (lib_ex 0) (config_ex (client_ex hosts_ab)) 86400))))
   \<and> getx509Data' (lib_ex 1728000) secret_ex = Inr (cert_ex 1728000)
   \<and> sint (CritDaysLeft (config_ex (client_ex hosts_ab))) < sint (daysLeft (cert_ex 1728000) 0)
   \<and> sint (daysLeft (cert_ex 1728000) 0) < sint (WarnDaysLeft (config_ex (client_ex hosts_ab)))
   \<and> ''certificate prod/web-tls (a.example.com) will expire in 20 days (NOTAFTER).''
       \<in> set (elems (fst (snd (getCertificateList (lib_ex 1728000)
                                 (config_ex (client_ex hosts_ab)) 0))))"
proof -
  have d1: "sint (daysLeft (cert_ex 0) 86400) \<le> 0"
    by (simp add: days_ex)
  have d2: "0 < sint (daysLeft (cert_ex 1728000) 0)
            \<and> sint (CritDaysLeft (config_ex (client_ex hosts_ab))) < sint (daysLeft (cert_ex 1728000) 0)
            \<and> sint (daysLeft (cert_ex 1728000) 0) < sint (WarnDaysLeft (config_ex (client_ex hosts_ab)))"
    by (simp add: days_ex config_ex_def)
  from severity_ladder
    [where lib = "lib_ex 0" and appConfig = "config_ex (client_ex hosts_ab)" and now = 86400
       and ns = "''prod''" and ingress = "ingress_ex hosts_ab" and t = "tls_ex hosts_ab"
       and x = "cert_ex 0" and namespaces = "[''prod'']"]
    parsed_ex [of 0 hosts_ab] in_cluster_ex(1) [of hosts_ab] d1
  have "msg_expired ''prod'' (ingress_Name (ingress_ex hosts_ab))
          (newCertInfo (cert_ex 0) (daysLeft (cert_ex 0) 86400))
        \<in> set (elems (snd (snd (getIngresses (lib_ex 0) (config_ex (client_ex hosts_ab)) 86400))))"
    by blast
  then have r1: "''certificate prod/web (a.example.com) expired on NOTAFTER''
       \<in> set (elems (snd (snd (getIngresses (lib_ex 0) (config_ex (client_ex hosts_ab)) 86400))))"
    by (simp only: ladder_msgs_ex)
  from severity_ladder
    [where lib = "lib_ex 1728000" and appConfig = "config_ex (client_ex hosts_ab)" and now = 0
       and ns = "''prod''" and secret = secret_ex
       and x = "cert_ex 1728000" and namespaces = "[''prod'']"]
    secret_parsed_ex [of 1728000] in_cluster_ex(2) [of hosts_ab] d2
  have "msg_will_expire' ''prod''
          (newCertInfo' ''prod'' secret_ex (cert_ex 1728000) (daysLeft (cert_ex 1728000) 0))
        \<in> set (elems (fst (snd (getCertificateList (lib_ex 1728000)
                                 (config_ex (client_ex hosts_ab)) 0))))"
    by blast
  then have r2: "''certificate prod/web-tls (a.example.com) will expire in 20 days (NOTAFTER).''
       \<in> set (elems (fst (snd (getCertificateList (lib_ex 1728000)
                                 (config_ex (client_ex hosts_ab)) 0))))"
    by (simp only: ladder_msgs_ex(2) [OF days_ex(2)])
  from parsed_ex [of 0 hosts_ab] secret_parsed_ex [of 1728000] d1 d2 r1 r2
  show ?thesis by blast
qed

section \<open>The reads of the handler\<close>

text \<open>When the three reads find one value, the response is that of \<open>handler_status\<close>.\<close>

lemma handler_response_one_value:
  "handler_response s s s = (handler_status s, s)"
  by (simp add: handler_response_def handler_status_def)

lemma cycle_single_ex:
  "getIngresses lib (config_ex (client_ex hs)) now
     = tlsSpecStep lib (config_ex (client_ex hs)) now ''prod'' (ingress_ex hs) (tls_ex hs)
         (None, None, None)"
  by (simp add: getIngresses_def namespaceStep_def ingressStep_def example_fields)

lemma verify_ex:
  "VerifyHostname (lib_ex t) (cert_ex t) h \<longleftrightarrow> h = ''a.example.com''"
  by (simp add: lib_ex_def cert_ex_def)

lemma cert_ex_fields:
  "String (x509_NotAfter (cert_ex t)) = ''NOTAFTER''"
  "x509_DNSNames (cert_ex t) = [''a.example.com'']"
  by (simp_all add: cert_ex_def)

lemma fmt_ex: "fmt_d 20 = ''20''"
  by (simp add: fmt_d_def digits.simps)

lemma cycle_ok_ex:
  "snd (getIngresses (lib_ex 8640000) (config_ex (client_ex [''a.example.com''])) 0)
     = (None, None)"
proof -
  have d: "0 < sint (daysLeft (cert_ex 8640000) 0)
           \<and> sint (CritDaysLeft (config_ex (client_ex [''a.example.com'']))) < sint (daysLeft (cert_ex 8640000) 0)
           \<and> sint (WarnDaysLeft (config_ex (client_ex [''a.example.com''])))
               \<le> sint (daysLeft (cert_ex 8640000) 0)"
    by (simp add: daysLeft_ex config_ex_def)
  from tlsSpecStep_ladder [OF parsed_ex, THEN conjunct2, THEN conjunct2, THEN conjunct2,
      rule_format, OF d]
  show ?thesis
    by (simp add: cycle_single_ex tls_ex_def verify_ex)
qed

lemma cycle_warn_ex:
  "snd (getIngresses (lib_ex 1728000) (config_ex (client_ex [''a.example.com''])) 0)
     = (Some [''certificate prod/web (a.example.com) will expire in 20 days (NOTAFTER).''],
        None)"
proof -
  have d: "0 < sint (daysLeft (cert_ex 1728000) 0)
           \<and> sint (CritDaysLeft (config_ex (client_ex [''a.example.com''])))
               < sint (daysLeft (cert_ex 1728000) 0)
           \<and> sint (daysLeft (cert_ex 1728000) 0)
               < sint (WarnDaysLeft (config_ex (client_ex [''a.example.com''])))"
    by (simp add: days_ex config_ex_def)
  have m: "msg_will_expire ''prod'' (ingress_Name (ingress_ex [''a.example.com'']))
             (newCertInfo (cert_ex 1728000) (daysLeft (cert_ex 1728000) 0))
           = ''certificate prod/web (a.example.com) will expire in 20 days (NOTAFTER).''"
    by (simp add: msg_will_expire_def newCertInfo_fields days_ex cert_ex_fields example_fields
        fmt_ex)
  from tlsSpecStep_ladder [OF parsed_ex, THEN conjunct2, THEN conjunct2, THEN conjunct1,
      rule_format, OF d]
  show ?thesis
    by (simp add: cycle_single_ex tls_ex_def verify_ex m append_slice_def elems_def)
qed

lemma snapshots_ex:
  "Errors snapshot_warn = None"
  "Warnings snapshot_warn
     = Some [''certificate prod/web (a.example.com) will expire in 20 days (NOTAFTER).'']"
  "Errors snapshot_err = Some [''certificate for prod/web is not valid for host b.example.com'']"
  "Warnings snapshot_err = None"
proof -
  from cycle_warn_ex show "Errors snapshot_warn = None"
    and "Warnings snapshot_warn
     = Some [''certificate prod/web (a.example.com) will expire in 20 days (NOTAFTER).'']"
    by (auto simp: snapshot_warn_def refresh_def split: prod.splits)
  show "Errors snapshot_err = Some [''certificate for prod/web is not valid for host b.example.com'']"
    and "Warnings snapshot_err = None"
    by (simp_all add: snapshot_err_def refresh_def cycle_ex)
qed

text \<open>
  C2. When the loop installs the second snapshot between the first and the second read
  of the handler, the response is that of neither snapshot: status 200, where the first
  snapshot gives 201 and the second 202, with the second snapshot as the body.
\<close>

theorem handler_mixes_two_snapshots:
  "handler_status snapshot_warn = 201
   \<and> handler_status snapshot_err = 202
   \<and> handler_response snapshot_warn snapshot_err snapshot_err = (200, snapshot_err)
   \<and> handler_response snapshot_warn snapshot_err snapshot_err
       \<noteq> handler_response snapshot_warn snapshot_warn snapshot_warn
   \<and> handler_response snapshot_warn snapshot_err snapshot_err
       \<noteq> handler_response snapshot_err snapshot_err snapshot_err"
  by (simp add: handler_response_def handler_status_def snapshots_ex len_def elems_def)

section \<open>The hostname check and the tier of the snapshot\<close>

lemma tlsSpecStep_host_error:
  assumes parsed: "getx509Data lib (KubeClient appConfig) (newIngressInfo ns ingress t) = Inr x"
      and h: "h \<in> set (tls_Hosts t)" and miss: "\<not> VerifyHostname lib x h"
  shows "msg_host ns (ingress_Name ingress) h
           \<in> set (elems (snd (snd (tlsSpecStep lib appConfig now ns ingress t acc))))"
proof -
  obtain l w es where acc: "acc = (l, w, es)" by (metis prod_cases3)
  obtain w1 e1 ci1 where lad: "expiryLadder appConfig ns (ingress_Name ingress) (daysLeft x now)
      (w, es, newCertInfo x (daysLeft x now)) = (w1, e1, ci1)"
    by (metis prod_cases3)
  from h miss have "h \<in> set (filter (\<lambda>h. \<not> VerifyHostname lib x h) (tls_Hosts t))"
    by simp
  then show ?thesis
    by (simp add: acc tlsSpecStep_parsed [OF parsed lad] elems_foldl_append_slice)
qed

lemma hostname_mismatch_202:
  assumes parsed: "getx509Data lib (KubeClient appConfig) (newIngressInfo ns ingress t) = Inr x"
      and h: "h \<in> set (tls_Hosts t)" and miss: "\<not> VerifyHostname lib x h"
      and c: "Namespaces_List (KubeClient appConfig) = Inr namespaces \<and> ns \<in> set namespaces
            \<and> ingress \<in> set (fst (Ingresses_List (KubeClient appConfig) ns))
            \<and> t \<in> set (ingress_Spec_TLS ingress)"
  shows "msg_host ns (ingress_Name ingress) h
           \<in> set (elems (Errors (refresh lib appConfig now nowString currentStatus)))
         \<and> handler_status (refresh lib appConfig now nowString currentStatus) = 202"
proof -
  have "msg_host ns (ingress_Name ingress) h
          \<in> set (elems (snd (snd (getIngresses lib appConfig now))))"
    by (rule getIngresses_reaches_error [where ns = ns and ingress = ingress and t = t
          and namespaces = namespaces])
       (use c in \<open>simp_all add: tlsSpecStep_host_error [OF parsed h miss]\<close>)
  then have m: "msg_host ns (ingress_Name ingress) h
           \<in> set (elems (Errors (refresh lib appConfig now nowString currentStatus)))"
    by (auto simp: refresh_def split: prod.splits)
  then have "elems (Errors (refresh lib appConfig now nowString currentStatus)) \<noteq> []"
    by auto
  then have "handler_status (refresh lib appConfig now nowString currentStatus) = 202"
    by (simp add: handler_status_def len_def)
  with m show ?thesis by simp
qed

text \<open>
  C5, as the code has it. For a parsed certificate, after the ladder of the expiry has
  given \<open>w1\<close>, \<open>es1\<close> and \<open>ci1\<close>: every host of the TLS entry is checked with
  \<open>VerifyHostname\<close>; the errors gain one diagnostic for each host that fails, in
  order, each naming its host; \<open>IsValid\<close> holds only if it held after the ladder and
  no host failed; the warnings and the other fields of the record, \<open>DaysLeft\<close> among
  them, are those of the ladder. The diagnostic of a failing host is in the errors that
  the cycle returns, so a single mismatch puts the snapshot in the tier of the errors:
  the status is 202.
\<close>

theorem hostname_check_all_hosts:
  assumes "getx509Data lib (KubeClient appConfig) (newIngressInfo ns ingress t) = Inr x"
      and "expiryLadder appConfig ns (ingress_Name ingress) (daysLeft x now)
             (w, es, newCertInfo x (daysLeft x now)) = (w1, es1, ci1)"
  shows "tlsSpecStep lib appConfig now ns ingress t (l, w, es) =
           (append_slice l ((newIngressInfo ns ingress t)
              \<lparr>x509 := Some x,
               CertificateInfo := Some (ci1\<lparr>IsValid := IsValid ci1
                  \<and> (\<forall>h \<in> set (tls_Hosts t). VerifyHostname lib x h)\<rparr>)\<rparr>),
            w1,
            foldl append_slice es1
              (map (msg_host ns (ingress_Name ingress))
                 (filter (\<lambda>h. \<not> VerifyHostname lib x h) (tls_Hosts t))))
         \<and> (\<forall>h \<in> set (tls_Hosts t). sublist h (msg_host ns (ingress_Name ingress) h))
         \<and> DaysLeft ci1 = daysLeft x now
         \<and> (\<forall>h \<in> set (tls_Hosts t). \<not> VerifyHostname lib x h \<longrightarrow>
              msg_host ns (ingress_Name ingress) h
                \<in> set (elems (snd (snd (tlsSpecStep lib appConfig now ns ingress t (l, w, es)))))
              \<and> (Namespaces_List (KubeClient appConfig) = Inr namespaces \<and> ns \<in> set namespaces
                 \<and> ingress \<in> set (fst (Ingresses_List (KubeClient appConfig) ns))
                 \<and> t \<in> set (ingress_Spec_TLS ingress) \<longrightarrow>
                   msg_host ns (ingress_Name ingress) h
                     \<in> set (elems (Errors (refresh lib appConfig now nowString currentStatus)))
                   \<and> handler_status (refresh lib appConfig now nowString currentStatus) = 202))"
proof (intro conjI ballI impI)
  show "DaysLeft ci1 = daysLeft x now"
    using assms(2) by (auto simp: expiryLadder_def newCertInfo_def Let_def split: if_splits)
next
  fix h assume "h \<in> set (tls_Hosts t)" "\<not> VerifyHostname lib x h"
  then show "msg_host ns (ingress_Name ingress) h
                \<in> set (elems (snd (snd (tlsSpecStep lib appConfig now ns ingress t (l, w, es)))))"
    by (rule tlsSpecStep_host_error [OF assms(1)])
next
  fix h assume h: "h \<in> set (tls_Hosts t)" "\<not> VerifyHostname lib x h"
    and c: "Namespaces_List (KubeClient appConfig) = Inr namespaces \<and> ns \<in> set namespaces
                 \<and> ingress \<in> set (fst (Ingresses_List (KubeClient appConfig) ns))
                 \<and> t \<in> set (ingress_Spec_TLS ingress)"
  from hostname_mismatch_202 [OF assms(1) h c]
  show "msg_host ns (ingress_Name ingress) h
          \<in> set (elems (Errors (refresh lib appConfig now nowString currentStatus)))"
    and "handler_status (refresh lib appConfig now nowString currentStatus) = 202"
    by simp_all
qed (rule tlsSpecStep_parsed [OF assms], rule sublist_msg_host)

lemma bad_hosts_ex:
  "filter (\<lambda>h. \<not> VerifyHostname (lib_ex t) (cert_ex t) h) (tls_Hosts (tls_ex hosts_bac))
     = [''b.example.com'', ''c.example.com'']"
  by (simp add: verify_ex tls_ex_def hosts_bac_def)

theorem hostname_check_all_hosts_witness:
  "getx509Data (lib_ex 8640000) (KubeClient (config_ex (client_ex hosts_bac)))
     (newIngressInfo ''prod'' (ingress_ex hosts_bac) (tls_ex hosts_bac)) = Inr (cert_ex 8640000)
   \<and> snd (tlsSpecStep (lib_ex 8640000) (config_ex (client_ex hosts_bac)) 0 ''prod''
           (ingress_ex hosts_bac) (tls_ex hosts_bac) (None, None, None))
       = (None, Some [''certificate for prod/web is not valid for host b.example.com'',
                      ''certificate for prod/web is not valid for host c.example.com''])
   \<and> handler_status
        (refresh (lib_ex 8640000) (config_ex (client_ex hosts_bac)) 0 ''T1'' status_zero) = 202"
proof -
  have l: "expiryLadder (config_ex (client_ex hosts_bac)) ''prod''
             (ingress_Name (ingress_ex hosts_bac)) (daysLeft (cert_ex 8640000) 0)
             (None, None, newCertInfo (cert_ex 8640000) (daysLeft (cert_ex 8640000) 0))
           = (None, None, newCertInfo (cert_ex 8640000) (daysLeft (cert_ex 8640000) 0))"
    by (simp add: daysLeft_ex ladder_ex example_fields)
  note inst = hostname_check_all_hosts [OF parsed_ex l, where l = None
      and namespaces = "[''prod'']" and nowString = "''T1''" and currentStatus = status_zero]
  from inst have "snd (tlsSpecStep (lib_ex 8640000) (config_ex (client_ex hosts_bac)) 0 ''prod''
           (ingress_ex hosts_bac) (tls_ex hosts_bac) (None, None, None))
        = (None, foldl append_slice None
             (map (msg_host ''prod'' (ingress_Name (ingress_ex hosts_bac)))
                (filter (\<lambda>h. \<not> VerifyHostname (lib_ex 8640000) (cert_ex 8640000) h)
                   (tls_Hosts (tls_ex hosts_bac)))))"
    by simp
  also have "\<dots> = (None, Some [''certificate for prod/web is not valid for host b.example.com'',
                      ''certificate for prod/web is not valid for host c.example.com''])"
    by (simp add: bad_hosts_ex example_fields msg_host_def append_slice_def elems_def)
  finally have r: "snd (tlsSpecStep (lib_ex 8640000) (config_ex (client_ex hosts_bac)) 0 ''prod''
           (ingress_ex hosts_bac) (tls_ex hosts_bac) (None, None, None))
       = (None, Some [''certificate for prod/web is not valid for host b.example.com'',
                      ''certificate for prod/web is not valid for host c.example.com''])" .
  have h: "''b.example.com'' \<in> set (tls_Hosts (tls_ex hosts_bac))"
    "\<not> VerifyHostname (lib_ex 8640000) (cert_ex 8640000) ''b.example.com''"
    by (simp_all add: verify_ex tls_ex_def hosts_bac_def)
  from inst h in_cluster_ex(1) [of hosts_bac]
  have "handler_status
        (refresh (lib_ex 8640000) (config_ex (client_ex hosts_bac)) 0 ''T1'' status_zero) = 202"
    by blast
  with r parsed_ex [of 8640000 hosts_bac] show ?thesis by blast
qed

text \<open>
  C5, as the specification words it, fails in its last sentence: for the same
  certificate with 100 days left, the cycle has no error and status 200 when the one
  expected host is covered, and an error and status 202 when a second host is not.
\<close>

theorem hostname_mismatch_tier_counterexample:
  "Errors (refresh (lib_ex 8640000) (config_ex (client_ex [''a.example.com''])) 0 ''T1''
             status_zero) = None
   \<and> handler_status (refresh (lib_ex 8640000) (config_ex (client_ex [''a.example.com''])) 0
        ''T1'' status_zero) = 200
   \<and> Errors (refresh (lib_ex 8640000) (config_ex (client_ex hosts_ab)) 0 ''T1'' status_zero)
       = Some [''certificate for prod/web is not valid for host b.example.com'']
   \<and> handler_status (refresh (lib_ex 8640000) (config_ex (client_ex hosts_ab)) 0 ''T1''
        status_zero) = 202"
proof -
  obtain l where "getIngresses (lib_ex 8640000) (config_ex (client_ex [''a.example.com''])) 0
      = (l, None, None)"
    using cycle_ok_ex by (metis prod.collapse)
  then have a: "Errors (refresh (lib_ex 8640000) (config_ex (client_ex [''a.example.com''])) 0
        ''T1'' status_zero) = None
     \<and> handler_status (refresh (lib_ex 8640000) (config_ex (client_ex [''a.example.com''])) 0
        ''T1'' status_zero) = 200"
    by (simp add: refresh_def handler_status_def len_def elems_def)
  have b: "Errors (refresh (lib_ex 8640000) (config_ex (client_ex hosts_ab)) 0 ''T1'' status_zero)
       = Some [''certificate for prod/web is not valid for host b.example.com'']
     \<and> handler_status (refresh (lib_ex 8640000) (config_ex (client_ex hosts_ab)) 0 ''T1''
        status_zero) = 202"
    by (simp add: refresh_def cycle_ex handler_status_def len_def elems_def)
  from a b show ?thesis by blast
qed

end
